theory Spec2Isabelle
  imports Main
begin

section \<open>MailKit: a proxied IMAP client with bounded retries\<close>

text \<open>
  The development embeds \<^verbatim>\<open>mailkit/main.py\<close> (class \<^verbatim>\<open>MailKit\<close>, class
  \<^verbatim>\<open>ProxyConfig\<close>) and \<^verbatim>\<open>mailkit/proxification_v2.py\<close> (classes
  \<^verbatim>\<open>SocksIMAP4\<close>, \<^verbatim>\<open>SocksIMAP4SSL\<close>, \<^verbatim>\<open>MailBoxProxy\<close>).

  Python methods become functions that take the program state and return a result
  together with the new state. A raised exception is the result \<open>Inl e\<close>, a returned
  value is \<open>Inr v\<close>. Everything the network, the clock and the libraries decide
  (whether a connection attempt succeeds, what a folder holds) is read from an
  environment \<open>env\<close> that every theorem quantifies over. Every call that reaches the
  network, and every pause of the retry decorator, is recorded in a trace, newest
  event first.

  Strings are byte strings; \<open>upper\<close> and \<open>lower\<close> act on the ASCII letters, which is
  what Python's \<^verbatim>\<open>str.upper\<close> and \<^verbatim>\<open>str.lower\<close> do on ASCII text. Calls to the
  logger are left out: they add no branch and no result.
\<close>

subsection \<open>Exceptions\<close>

datatype exn =
    ValueError string
  | KeyError string
  | TypeError
  | ValidationError
  | MailboxLoginError
  | LibraryError string
  | RetryError nat exn
  | KeyboardInterrupt

text \<open>
  \<open>LibraryError\<close> stands for any other subclass of \<^verbatim>\<open>Exception\<close> that PySocks, ssl,
  imaplib or imap_tools raise. \<open>RetryError n e\<close> is tenacity's \<^verbatim>\<open>RetryError\<close>: it wraps
  the last attempt, whose number is \<open>n\<close> and whose exception is \<open>e\<close>.
  \<open>KeyboardInterrupt\<close> is the one modelled exception that derives from
  \<^verbatim>\<open>BaseException\<close> only.
\<close>

fun is_Exception :: "exn \<Rightarrow> bool" where
  "is_Exception KeyboardInterrupt = False"
| "is_Exception _ = True"

subsection \<open>Strings\<close>

definition upper_char :: "char \<Rightarrow> char" where
  "upper_char c =
     (case map_of (zip ''abcdefghijklmnopqrstuvwxyz'' ''ABCDEFGHIJKLMNOPQRSTUVWXYZ'') c of
        Some d \<Rightarrow> d
      | None \<Rightarrow> c)"

definition lower_char :: "char \<Rightarrow> char" where
  "lower_char c =
     (case map_of (zip ''ABCDEFGHIJKLMNOPQRSTUVWXYZ'' ''abcdefghijklmnopqrstuvwxyz'') c of
        Some d \<Rightarrow> d
      | None \<Rightarrow> c)"

definition upper :: "string \<Rightarrow> string" where
  "upper s = map upper_char s"

definition lower :: "string \<Rightarrow> string" where
  "lower s = map lower_char s"

text \<open>\<^verbatim>\<open>s.split(sep)\<close> for a one-character separator: never the empty list.\<close>

fun str_split :: "char \<Rightarrow> string \<Rightarrow> string list" where
  "str_split sep [] = [[]]"
| "str_split sep (c # cs) =
     (if c = sep then [] # str_split sep cs
      else (case str_split sep cs of
              [] \<Rightarrow> [[c]]
            | p # ps \<Rightarrow> (c # p) # ps))"

text \<open>\<^verbatim>\<open>k in s\<close> on strings: \<open>k\<close> occurs in \<open>s\<close> as a contiguous substring.\<close>

fun starts_with :: "string \<Rightarrow> string \<Rightarrow> bool" where
  "starts_with [] s = True"
| "starts_with (k # ks) [] = False"
| "starts_with (k # ks) (c # cs) = (k = c \<and> starts_with ks cs)"

fun str_contains :: "string \<Rightarrow> string \<Rightarrow> bool" where
  "str_contains k [] = (k = [])"
| "str_contains k (c # cs) = (starts_with k (c # cs) \<or> str_contains k cs)"

text \<open>Truthiness of an optional string: \<^verbatim>\<open>None\<close> and \<^verbatim>\<open>''\<close> are false.\<close>

fun truthy :: "string option \<Rightarrow> bool" where
  "truthy None = False"
| "truthy (Some s) = (s \<noteq> [])"

subsection \<open>The provider table and the proxy configuration\<close>

definition providers :: "(string \<times> string) list" where
  "providers =
     [(''gmail.com'', ''imap.gmail.com''),
      (''yahoo.com'', ''imap.mail.yahoo.com''),
      (''mail.com'', ''imap.mail.com''),
      (''gmx.com'', ''imap.gmx.com''),
      (''mail.ru'', ''imap.mail.ru''),
      (''rambler.ru'', ''imap.rambler.ru''),
      (''autorambler.ru'', ''imap.rambler.ru''),
      (''outlook.com'', ''outlook.office365.com''),
      (''hotmail.com'', ''outlook.office365.com''),
      (''aol.com'', ''imap.aol.com'')]"

text \<open>
  The constants of the PySocks module: \<^verbatim>\<open>socks.SOCKS4 = PROXY_TYPE_SOCKS4 = 1\<close>,
  \<^verbatim>\<open>socks.SOCKS5 = PROXY_TYPE_SOCKS5 = 2\<close>, \<^verbatim>\<open>socks.HTTP = PROXY_TYPE_HTTP = 3\<close>.
\<close>

definition socks_SOCKS4 :: int where "socks_SOCKS4 = 1"
definition socks_SOCKS5 :: int where "socks_SOCKS5 = 2"
definition socks_HTTP :: int where "socks_HTTP = 3"

text \<open>
  The field \<^verbatim>\<open>proxy_type\<close> is declared \<^verbatim>\<open>str\<close>, and \<^verbatim>\<open>connect_and_login\<close> assigns an
  \<^verbatim>\<open>int\<close> to it, so the field holds a value of either type.
\<close>

datatype pyval = PStr string | PInt int

record ProxyConfig =
  proxy_type :: pyval
  proxy_addr :: string
  proxy_port :: int
  proxy_username :: "string option"
  proxy_password :: "string option"
  timeout :: "int option"

datatype 'a arg = Omitted | Given 'a

text \<open>
  Construction of a \<^verbatim>\<open>ProxyConfig\<close>, with the validation its field declarations ask
  pydantic for: \<^verbatim>\<open>proxy_type: str\<close>, \<^verbatim>\<open>proxy_port: int, ge=1, le=65535\<close>,
  \<^verbatim>\<open>timeout: Optional[int] = Field(10, ge=1)\<close>.
\<close>

definition ProxyConfig_new ::
  "pyval \<Rightarrow> string \<Rightarrow> int \<Rightarrow> string option \<Rightarrow> string option \<Rightarrow> int option arg
     \<Rightarrow> exn + ProxyConfig" where
  "ProxyConfig_new ty addr port user pass tmo =
     (case ty of
        PInt _ \<Rightarrow> Inl ValidationError
      | PStr _ \<Rightarrow>
          if port < 1 \<or> 65535 < port then Inl ValidationError
          else (case tmo of
                  Omitted \<Rightarrow>
                    Inr \<lparr>proxy_type = ty, proxy_addr = addr, proxy_port = port,
                         proxy_username = user, proxy_password = pass, timeout = Some 10\<rparr>
                | Given None \<Rightarrow>
                    Inr \<lparr>proxy_type = ty, proxy_addr = addr, proxy_port = port,
                         proxy_username = user, proxy_password = pass, timeout = None\<rparr>
                | Given (Some t) \<Rightarrow>
                    if t < 1 then Inl ValidationError
                    else Inr \<lparr>proxy_type = ty, proxy_addr = addr, proxy_port = port,
                              proxy_username = user, proxy_password = pass,
                              timeout = Some t\<rparr>))"

subsection \<open>Messages and search criteria\<close>

text \<open>
  A \<^verbatim>\<open>datetime\<close>: whether it carries a time zone, and its wall-clock reading in
  microseconds. \<^verbatim>\<open>d.date()\<close> is the calendar day of that reading.
\<close>

record datetime =
  aware :: bool
  wall :: int

definition date_of :: "datetime \<Rightarrow> int" where
  "date_of d = wall d div 86400000000"

record message =
  msg_uid :: nat
  msg_date :: datetime
  msg_text :: string
  msg_html :: string

text \<open>\<^verbatim>\<open>msg.text or msg.html\<close>\<close>

definition body :: "message \<Rightarrow> string" where
  "body m = (if msg_text m \<noteq> [] then msg_text m else msg_html m)"

text \<open>The dictionary \<^verbatim>\<open>search_criteria\<close>: its three possible keys.\<close>

record criteria =
  c_seen :: "bool option"
  c_subject :: "string option"
  c_from :: "string option"

datatype soup = BeautifulSoup string

subsection \<open>The trace, the environment and the state\<close>

record conn_args =
  ca_host :: string
  ca_port :: int
  ca_proxy_type :: int
  ca_proxy_addr :: string
  ca_proxy_port :: int
  ca_proxy_rdns :: bool
  ca_proxy_username :: "string option"
  ca_proxy_password :: "string option"
  ca_timeout :: int

datatype event =
    Connect conn_args
  | WrapSocket "string option"
  | Greeting
  | DirectOpen string
  | Login string string
  | FolderSet string
  | Search string criteria
  | FetchMsg string nat bool
  | Sleep nat

text \<open>
  \<open>Connect a\<close> is one call of \<^verbatim>\<open>socks.create_connection\<close> with the arguments \<open>a\<close>;
  \<open>WrapSocket h\<close> one call of \<^verbatim>\<open>ssl_context.wrap_socket\<close> with that server name;
  \<open>Greeting\<close> the reading of the server greeting by \<^verbatim>\<open>IMAP4.__init__\<close>;
  \<open>DirectOpen h\<close> the construction of an unproxied \<^verbatim>\<open>MailBox(h)\<close>;
  \<open>FetchMsg f uid seen\<close> the fetch of one message of folder \<open>f\<close> with that
  \<^verbatim>\<open>mark_seen\<close>; \<open>Sleep n\<close> a pause of \<open>n\<close> seconds made by the retry decorator.
\<close>

fun is_Connect :: "event \<Rightarrow> bool" where
  "is_Connect (Connect a) = True"
| "is_Connect _ = False"

fun is_WrapSocket :: "event \<Rightarrow> bool" where
  "is_WrapSocket (WrapSocket h) = True"
| "is_WrapSocket _ = False"

fun is_Greeting :: "event \<Rightarrow> bool" where
  "is_Greeting Greeting = True"
| "is_Greeting _ = False"

fun is_Sleep :: "event \<Rightarrow> bool" where
  "is_Sleep (Sleep n) = True"
| "is_Sleep _ = False"

text \<open>A network call is any event but a pause.\<close>

definition network_calls :: "event list \<Rightarrow> event list" where
  "network_calls tr = filter (\<lambda>e. \<not> is_Sleep e) tr"

definition connects :: "event list \<Rightarrow> event list" where
  "connects tr = filter is_Connect tr"

text \<open>
  The environment. An outcome \<open>None\<close> is success, \<open>Some e\<close> raises \<open>e\<close>. The three
  steps of opening a proxied connection are asked by the number of earlier calls of
  the same kind, since the retry decorator repeats them.
\<close>

record env =
  e_connect :: "nat \<Rightarrow> exn option"
  e_wrap :: "nat \<Rightarrow> exn option"
  e_greet :: "nat \<Rightarrow> exn option"
  e_has_sni :: bool
  e_direct :: "string \<Rightarrow> exn option"
  e_login :: "string \<Rightarrow> string \<Rightarrow> exn option"
  e_set :: "string \<Rightarrow> exn + bool"
  e_query :: "criteria \<Rightarrow> exn option"
  e_search :: "string \<Rightarrow> criteria \<Rightarrow> exn + message list"
  e_fetch :: "string \<Rightarrow> nat \<Rightarrow> exn option"
  e_now :: "string \<Rightarrow> nat \<Rightarrow> int"

text \<open>
  \<open>e_set f\<close> is what \<^verbatim>\<open>mailbox.folder.set(f)\<close> does: raise, or return a value that is
  true or false. \<open>e_query c\<close> is what building the query \<^verbatim>\<open>AND(**search_criteria)\<close>
  does. \<open>e_search f c\<close> is the list of messages of folder \<open>f\<close> that match \<open>c\<close>;
  \<open>e_fetch f uid\<close> the fetch of one of them; \<open>e_now f uid\<close> what \<^verbatim>\<open>datetime.now()\<close>
  reads while that message is filtered.
\<close>

record SocksIMAP4SSL =
  host :: string
  port :: int
  proxy_addr' :: string
  proxy_port' :: int
  rdns :: bool
  username :: "string option"
  password :: "string option"
  proxy_type' :: int
  keyfile :: "string option"
  certfile :: "string option"
  ssl_context :: "string option"

record MailBoxProxy =
  p_host :: string
  p_port :: int
  p_keyfile :: "string option"
  p_certfile :: "string option"
  p_ssl_context :: "string option"
  p_timeout :: "int option"
  p_proxy_type :: string
  p_proxy_addr :: string
  p_proxy_port :: int
  p_proxy_rdns :: bool
  p_proxy_username :: "string option"
  p_proxy_password :: "string option"

datatype mailbox_obj =
    MailBox string
  | MailBoxProxied MailBoxProxy SocksIMAP4SSL

text \<open>
  A \<^verbatim>\<open>MailKit\<close> object. Its field \<open>proxy\<close> is a reference: the address of a
  \<^verbatim>\<open>ProxyConfig\<close> object that the caller built and still holds.
\<close>

record MailKit =
  u :: string
  pw :: string
  mailbox :: "mailbox_obj option"
  login_status :: bool
  proxy :: "nat option"

record pystate =
  trace :: "event list"
  heap :: "nat \<Rightarrow> ProxyConfig"
  this :: MailKit

definition emit :: "event \<Rightarrow> pystate \<Rightarrow> pystate" where
  "emit ev st = st\<lparr>trace := ev # trace st\<rparr>"

text \<open>The number of calls of \<^verbatim>\<open>socks.create_connection\<close> made so far.\<close>

definition attempts :: "pystate \<Rightarrow> nat" where
  "attempts st = length (connects (trace st))"

subsection \<open>The retry decorator\<close>

text \<open>
  \<^verbatim>\<open>@retry(stop=stop_after_attempt(n), wait=wait_fixed(d))\<close> of tenacity 8.2.3, with the
  defaults the source leaves in place (\<^verbatim>\<open>retry=retry_if_exception_type()\<close>,
  \<^verbatim>\<open>reraise=False\<close>). Attempt number \<open>k\<close> runs the function. A returned value is
  returned. An exception that is not an \<^verbatim>\<open>Exception\<close> is raised as it is. Otherwise,
  when \<open>k \<ge> n\<close> tenacity raises \<^verbatim>\<open>RetryError\<close> around the last attempt; else it
  sleeps \<open>d\<close> seconds and runs attempt \<open>k + 1\<close>.
\<close>

function retry_from ::
  "nat \<Rightarrow> nat \<Rightarrow> nat \<Rightarrow> (pystate \<Rightarrow> (exn + 'a) \<times> pystate) \<Rightarrow> pystate
     \<Rightarrow> (exn + 'a) \<times> pystate" where
  "retry_from n d k f st =
     (case f st of
        (Inr v, st') \<Rightarrow> (Inr v, st')
      | (Inl e, st') \<Rightarrow>
          if \<not> is_Exception e then (Inl e, st')
          else if n \<le> k then (Inl (RetryError k e), st')
          else retry_from n d (Suc k) f (emit (Sleep d) st'))"
  by pat_completeness auto
termination
  by (relation "measure (\<lambda>(n, d, k, f, st). n - k)") auto

declare retry_from.simps [simp del]

text \<open>The decorator as every method of the source writes it: 3 attempts, 3 seconds.\<close>

definition retry ::
  "(pystate \<Rightarrow> (exn + 'a) \<times> pystate) \<Rightarrow> pystate \<Rightarrow> (exn + 'a) \<times> pystate" where
  "retry f st = retry_from 3 3 1 f st"

subsection \<open>The proxied IMAP client (proxification_v2.py)\<close>

text \<open>\<^verbatim>\<open>socks.create_connection\<close>: one attempt to reach the server through the proxy.\<close>

definition socks_create_connection ::
  "env \<Rightarrow> conn_args \<Rightarrow> pystate \<Rightarrow> (exn + nat) \<times> pystate" where
  "socks_create_connection E a st =
     (let k = attempts st; st' = emit (Connect a) st
      in case e_connect E k of
           None \<Rightarrow> (Inr k, st')
         | Some e \<Rightarrow> (Inl e, st'))"

definition wrap_socket ::
  "env \<Rightarrow> nat \<Rightarrow> string option \<Rightarrow> pystate \<Rightarrow> (exn + nat) \<times> pystate" where
  "wrap_socket E sock server_hostname st =
     (let k = length (filter is_WrapSocket (trace st));
          st' = emit (WrapSocket server_hostname) st
      in case e_wrap E k of
           None \<Rightarrow> (Inr sock, st')
         | Some e \<Rightarrow> (Inl e, st'))"

definition PROXY_TYPES :: "(string \<times> int) list" where
  "PROXY_TYPES = [(''socks4'', socks_SOCKS4), (''socks5'', socks_SOCKS5), (''http'', socks_HTTP)]"

text \<open>
  \<^verbatim>\<open>SocksIMAP4._create_socket(self, timeout=None)\<close>. The parameter \<open>tmo\<close> is not used:
  the call is written with \<^verbatim>\<open>timeout=10\<close>.
\<close>

definition SocksIMAP4_create_socket ::
  "env \<Rightarrow> SocksIMAP4SSL \<Rightarrow> int option \<Rightarrow> pystate \<Rightarrow> (exn + nat) \<times> pystate" where
  "SocksIMAP4_create_socket E self tmo =
     retry (socks_create_connection E
       \<lparr>ca_host = host self, ca_port = port self, ca_proxy_type = proxy_type' self,
        ca_proxy_addr = proxy_addr' self, ca_proxy_port = proxy_port' self,
        ca_proxy_rdns = rdns self, ca_proxy_username = username self,
        ca_proxy_password = password self, ca_timeout = 10\<rparr>)"

text \<open>
  \<^verbatim>\<open>SocksIMAP4SSL._create_socket\<close>: it calls \<^verbatim>\<open>SocksIMAP4._create_socket\<close>, which is
  the decorated method, and wraps the socket.
\<close>

definition SocksIMAP4SSL_create_socket ::
  "env \<Rightarrow> SocksIMAP4SSL \<Rightarrow> int option \<Rightarrow> pystate \<Rightarrow> (exn + nat) \<times> pystate" where
  "SocksIMAP4SSL_create_socket E self tmo =
     retry (\<lambda>st.
       case SocksIMAP4_create_socket E self tmo st of
         (Inl e, st1) \<Rightarrow> (Inl e, st1)
       | (Inr sock, st1) \<Rightarrow>
           wrap_socket E sock (if e_has_sni E then Some (host self) else None) st1)"

text \<open>
  \<^verbatim>\<open>IMAP4.open\<close> of imaplib, which \<^verbatim>\<open>SocksIMAP4.open\<close> resolves to: it stores the host
  and the port and calls \<^verbatim>\<open>self._create_socket(timeout)\<close>.
\<close>

definition IMAP4_open ::
  "env \<Rightarrow> SocksIMAP4SSL \<Rightarrow> string \<Rightarrow> int \<Rightarrow> int option \<Rightarrow> pystate
     \<Rightarrow> (exn + SocksIMAP4SSL) \<times> pystate" where
  "IMAP4_open E self h p tmo st =
     (let self1 = self\<lparr>host := h, port := p\<rparr>
      in case SocksIMAP4SSL_create_socket E self1 tmo st of
           (Inl e, st1) \<Rightarrow> (Inl e, st1)
         | (Inr sock, st1) \<Rightarrow> (Inr self1, st1))"

definition SocksIMAP4SSL_open ::
  "env \<Rightarrow> SocksIMAP4SSL \<Rightarrow> string \<Rightarrow> int \<Rightarrow> int option \<Rightarrow> pystate
     \<Rightarrow> (exn + SocksIMAP4SSL) \<times> pystate" where
  "SocksIMAP4SSL_open E self h p tmo = retry (IMAP4_open E self h p tmo)"

text \<open>
  \<^verbatim>\<open>IMAP4.__init__(self, host, port, timeout)\<close> of imaplib: it calls \<^verbatim>\<open>self.open\<close> and
  then reads the server greeting.
\<close>

definition IMAP4_init ::
  "env \<Rightarrow> SocksIMAP4SSL \<Rightarrow> string \<Rightarrow> int \<Rightarrow> int option \<Rightarrow> pystate
     \<Rightarrow> (exn + SocksIMAP4SSL) \<times> pystate" where
  "IMAP4_init E self h p tmo st =
     (case SocksIMAP4SSL_open E self h p tmo st of
        (Inl e, st1) \<Rightarrow> (Inl e, st1)
      | (Inr self1, st1) \<Rightarrow>
          (let k = length (filter is_Greeting (trace st1)); st2 = emit Greeting st1
           in case e_greet E k of
                None \<Rightarrow> (Inr self1, st2)
              | Some e \<Rightarrow> (Inl e, st2)))"

text \<open>
  \<^verbatim>\<open>SocksIMAP4SSL.__init__\<close> followed by \<^verbatim>\<open>SocksIMAP4.__init__\<close>. The object is built
  with the host and the port it is given; \<^verbatim>\<open>open\<close> assigns the same two values.
\<close>

definition SocksIMAP4SSL_init ::
  "env \<Rightarrow> string \<Rightarrow> int \<Rightarrow> string option \<Rightarrow> string option \<Rightarrow> string option \<Rightarrow> string
     \<Rightarrow> int \<Rightarrow> bool \<Rightarrow> string option \<Rightarrow> string option \<Rightarrow> string \<Rightarrow> int option \<Rightarrow> pystate
     \<Rightarrow> (exn + SocksIMAP4SSL) \<times> pystate" where
  "SocksIMAP4SSL_init E h p kf cf ctx paddr pport rd usr pwd ptype tmo st =
     (if ctx \<noteq> None \<and> kf \<noteq> None
        then (Inl (ValueError ''ssl_context and keyfile arguments are mutually exclusive''), st)
      else if ctx \<noteq> None \<and> cf \<noteq> None
        then (Inl (ValueError ''ssl_context and certfile arguments are mutually exclusive''), st)
      else
        (case map_of PROXY_TYPES (lower ptype) of
           None \<Rightarrow> (Inl (KeyError (lower ptype)), st)
         | Some code \<Rightarrow>
             IMAP4_init E
               \<lparr>host = h, port = p, proxy_addr' = paddr, proxy_port' = pport, rdns = rd,
                username = usr, password = pwd, proxy_type' = code, keyfile = kf,
                certfile = cf,
                ssl_context = (if ctx = None then Some ''stdlib'' else ctx)\<rparr>
               h p tmo st))"

definition MailBoxProxy_get_mailbox_client ::
  "env \<Rightarrow> MailBoxProxy \<Rightarrow> pystate \<Rightarrow> (exn + SocksIMAP4SSL) \<times> pystate" where
  "MailBoxProxy_get_mailbox_client E self =
     retry (SocksIMAP4SSL_init E (p_host self) (p_port self) (p_keyfile self)
       (p_certfile self) (p_ssl_context self) (p_proxy_addr self) (p_proxy_port self)
       (p_proxy_rdns self) (p_proxy_username self) (p_proxy_password self)
       (p_proxy_type self) (p_timeout self))"

text \<open>
  \<^verbatim>\<open>MailBoxProxy.__init__\<close>: it stores its arguments, and \<^verbatim>\<open>BaseMailBox.__init__\<close>
  assigns \<^verbatim>\<open>self.client = self._get_mailbox_client()\<close>.
\<close>

definition MailBoxProxy_init ::
  "env \<Rightarrow> MailBoxProxy \<Rightarrow> pystate \<Rightarrow> (exn + mailbox_obj) \<times> pystate" where
  "MailBoxProxy_init E self st =
     (case MailBoxProxy_get_mailbox_client E self st of
        (Inl e, st1) \<Rightarrow> (Inl e, st1)
      | (Inr client, st1) \<Rightarrow> (Inr (MailBoxProxied self client), st1))"

text \<open>The unproxied \<^verbatim>\<open>MailBox(provider)\<close> of imap_tools: it connects when it is built.\<close>

definition MailBox_init :: "env \<Rightarrow> string \<Rightarrow> pystate \<Rightarrow> (exn + mailbox_obj) \<times> pystate" where
  "MailBox_init E h st =
     (let st' = emit (DirectOpen h) st
      in case e_direct E h of
           None \<Rightarrow> (Inr (MailBox h), st')
         | Some e \<Rightarrow> (Inl e, st'))"

subsection \<open>MailKit.connect_and_login (main.py)\<close>

text \<open>
  Lines 181 to 191: the translation of \<^verbatim>\<open>self.proxy.proxy_type\<close>. A string that is
  neither \<^verbatim>\<open>'HTTP'\<close> nor \<^verbatim>\<open>'SOCKS5'\<close> in upper case is left as it is.
\<close>

definition translate_proxy_type :: "pyval \<Rightarrow> exn + pyval" where
  "translate_proxy_type t =
     (case t of
        PStr s \<Rightarrow>
          if upper s = ''HTTP'' then Inr (PInt socks_HTTP)
          else if upper s = ''SOCKS5'' then Inr (PInt socks_SOCKS5)
          else Inr t
      | PInt n \<Rightarrow>
          if n = socks_HTTP \<or> n = socks_SOCKS5 then Inr t
          else Inl (ValueError
            ''Invalid proxy type. Must be either 'HTTP', 'SOCKS5', or a valid socks proxy type.''))"

text \<open>Lines 205 to 213: \<^verbatim>\<open>login\<close>, then \<^verbatim>\<open>folder.set('INBOX')\<close>.\<close>

definition login_and_select :: "env \<Rightarrow> pystate \<Rightarrow> (exn + bool option) \<times> pystate" where
  "login_and_select E st =
     (let st1 = emit (Login (u (this st)) (pw (this st))) st
      in case e_login E (u (this st)) (pw (this st)) of
           Some e \<Rightarrow> (Inl e, st1)
         | None \<Rightarrow>
             (let st2 = emit (FolderSet ''INBOX'') st1
              in case e_set E ''INBOX'' of
                   Inl e \<Rightarrow> (Inl e, st2)
                 | Inr True \<Rightarrow> (Inr (Some True), st2\<lparr>this := (this st2)\<lparr>login_status := True\<rparr>\<rparr>)
                 | Inr False \<Rightarrow>
                     (Inr (Some False), st2\<lparr>this := (this st2)\<lparr>login_status := False\<rparr>\<rparr>)))"

text \<open>
  Lines 178 to 217, the body of the \<^verbatim>\<open>try\<close>. The assignment to
  \<^verbatim>\<open>self.proxy.proxy_type\<close> writes into the caller's object, at its address in the
  heap. The proxied mailbox is built with the literal \<^verbatim>\<open>p_proxy_type='HTTP'\<close>; the
  other arguments are read from the configuration.
\<close>

definition connect_try :: "env \<Rightarrow> string \<Rightarrow> pystate \<Rightarrow> (exn + bool option) \<times> pystate" where
  "connect_try E parsed_user st =
     (case map_of providers parsed_user of
        None \<Rightarrow> (Inr (Some False), st\<lparr>this := (this st)\<lparr>login_status := False\<rparr>\<rparr>)
      | Some provider \<Rightarrow>
          (case proxy (this st) of
             Some a \<Rightarrow>
               (case translate_proxy_type (proxy_type (heap st a)) of
                  Inl e \<Rightarrow> (Inl e, st)
                | Inr t \<Rightarrow>
                    (let st1 = st\<lparr>heap := (heap st)(a := (heap st a)\<lparr>proxy_type := t\<rparr>)\<rparr>;
                         pc = heap st1 a
                     in case MailBoxProxy_init E
                               \<lparr>p_host = provider, p_port = 993, p_keyfile = None,
                                p_certfile = None, p_ssl_context = None,
                                p_timeout = timeout pc, p_proxy_type = ''HTTP'',
                                p_proxy_addr = proxy_addr pc, p_proxy_port = proxy_port pc,
                                p_proxy_rdns = True,
                                p_proxy_username = proxy_username pc,
                                p_proxy_password = proxy_password pc\<rparr> st1 of
                          (Inl e, st2) \<Rightarrow> (Inl e, st2)
                        | (Inr mb, st2) \<Rightarrow>
                            login_and_select E
                              (st2\<lparr>this := (this st2)\<lparr>mailbox := Some mb\<rparr>\<rparr>)))
           | None \<Rightarrow>
               (case MailBox_init E provider st of
                  (Inl e, st1) \<Rightarrow> (Inl e, st1)
                | (Inr mb, st1) \<Rightarrow>
                    login_and_select E (st1\<lparr>this := (this st1)\<lparr>mailbox := Some mb\<rparr>\<rparr>))))"

text \<open>
  The undecorated method. The result \<open>None\<close> is Python's \<^verbatim>\<open>None\<close>: the method falls
  off its end when the address has no \<^verbatim>\<open>@\<close>.
\<close>

definition connect_and_login_body :: "env \<Rightarrow> pystate \<Rightarrow> (exn + bool option) \<times> pystate" where
  "connect_and_login_body E st =
     (let parsed_user = str_split CHR ''@'' (u (this st))
      in if length parsed_user > 1 then
           (case connect_try E (parsed_user ! 1) st of
              (Inr r, st1) \<Rightarrow> (Inr r, st1)
            | (Inl e, st1) \<Rightarrow>
                if e = MailboxLoginError
                  then (Inr (Some False), st1\<lparr>this := (this st1)\<lparr>login_status := False\<rparr>\<rparr>)
                else if is_Exception e then (Inr (Some False), st1)
                else (Inl e, st1))
         else (Inr None, st))"

definition connect_and_login :: "env \<Rightarrow> pystate \<Rightarrow> (exn + bool option) \<times> pystate" where
  "connect_and_login E = retry (connect_and_login_body E)"

text \<open>\<^verbatim>\<open>MailKit.__init__\<close>: it sets the fields and calls \<^verbatim>\<open>connect_and_login\<close>.\<close>

definition MailKit_init ::
  "env \<Rightarrow> string \<Rightarrow> string \<Rightarrow> nat option \<Rightarrow> pystate \<Rightarrow> (exn + unit) \<times> pystate" where
  "MailKit_init E user passwd prx st =
     (case connect_and_login E
             (st\<lparr>this := \<lparr>u = user, pw = passwd, mailbox = None, login_status = False,
                          proxy = prx\<rparr>\<rparr>) of
        (Inl e, st1) \<Rightarrow> (Inl e, st1)
      | (Inr r, st1) \<Rightarrow> (Inr (), st1))"

subsection \<open>MailKit.scrap (main.py)\<close>

text \<open>
  Line 267: \<^verbatim>\<open>time_diff and datetime.now() - msg_time > time_diff\<close>. A \<^verbatim>\<open>timedelta\<close>
  is a number of microseconds, false when it is zero. \<^verbatim>\<open>datetime.now()\<close> carries no
  time zone, and Python raises \<^verbatim>\<open>TypeError\<close> when a datetime with a time zone is
  subtracted from it.
\<close>

definition too_old :: "env \<Rightarrow> string \<Rightarrow> int option \<Rightarrow> message \<Rightarrow> exn + bool" where
  "too_old E f time_diff msg =
     (case time_diff of
        None \<Rightarrow> Inr False
      | Some td \<Rightarrow>
          if td = 0 then Inr False
          else if aware (msg_date msg) then Inl TypeError
          else Inr (e_now E f (msg_uid msg) - wall (msg_date msg) > td))"

text \<open>Lines 266 to 274, the body of the loop over the messages of one folder.\<close>

definition filter_msg ::
  "env \<Rightarrow> string \<Rightarrow> int option \<Rightarrow> datetime option \<Rightarrow> string option \<Rightarrow> message
     \<Rightarrow> exn + soup option" where
  "filter_msg E f time_diff specific_date keyword msg =
     (case too_old E f time_diff msg of
        Inl e \<Rightarrow> Inl e
      | Inr True \<Rightarrow> Inr None
      | Inr False \<Rightarrow>
          if (case specific_date of
                None \<Rightarrow> False
              | Some sd \<Rightarrow> date_of (msg_date msg) \<noteq> date_of sd) then Inr None
          else if (case keyword of
                     None \<Rightarrow> False
                   | Some k \<Rightarrow> k \<noteq> [] \<and> \<not> str_contains k (body msg)) then Inr None
          else Inr (Some (BeautifulSoup (body msg))))"

text \<open>
  The loop \<^verbatim>\<open>for msg in messages\<close>. \<^verbatim>\<open>messages\<close> is the generator that
  \<^verbatim>\<open>mailbox.fetch(..., mark_seen=True)\<close> returns: it fetches one message at a time,
  when the loop asks for it. The result is the exception that ended the loop, if any,
  with the list \<^verbatim>\<open>soups\<close> and the state as they are then.
\<close>

fun fetch_loop ::
  "env \<Rightarrow> string \<Rightarrow> int option \<Rightarrow> datetime option \<Rightarrow> string option \<Rightarrow> message list
     \<Rightarrow> soup list \<Rightarrow> pystate \<Rightarrow> exn option \<times> soup list \<times> pystate" where
  "fetch_loop E f td sd kw [] soups st = (None, soups, st)"
| "fetch_loop E f td sd kw (m # ms) soups st =
     (let st1 = emit (FetchMsg f (msg_uid m) True) st
      in case e_fetch E f (msg_uid m) of
           Some e \<Rightarrow> (Some e, soups, st1)
         | None \<Rightarrow>
             (case filter_msg E f td sd kw m of
                Inl e \<Rightarrow> (Some e, soups, st1)
              | Inr None \<Rightarrow> fetch_loop E f td sd kw ms soups st1
              | Inr (Some s) \<Rightarrow> fetch_loop E f td sd kw ms (soups @ [s]) st1))"

text \<open>Lines 263 to 274, the body of the inner \<^verbatim>\<open>try\<close> for the folder \<open>f\<close>.\<close>

definition scan_folder ::
  "env \<Rightarrow> criteria \<Rightarrow> int option \<Rightarrow> datetime option \<Rightarrow> string option \<Rightarrow> string
     \<Rightarrow> soup list \<Rightarrow> pystate \<Rightarrow> exn option \<times> soup list \<times> pystate" where
  "scan_folder E crit td sd kw f soups st =
     (let st1 = emit (FolderSet f) st
      in case e_set E f of
           Inl e \<Rightarrow> (Some e, soups, st1)
         | Inr b \<Rightarrow>
             (case e_query E crit of
                Some e \<Rightarrow> (Some e, soups, st1)
              | None \<Rightarrow>
                  (let st2 = emit (Search f crit) st1
                   in case e_search E f crit of
                        Inl e \<Rightarrow> (Some e, soups, st2)
                      | Inr ms \<Rightarrow> fetch_loop E f td sd kw ms soups st2)))"

text \<open>
  Lines 261 to 276: \<^verbatim>\<open>for i in folders: try: ... except BaseException: pass\<close>. Whatever
  ended the scan of a folder is dropped. No exception leaves this loop, so the outer
  handler of line 277 has nothing to catch.
\<close>

fun scan_folders ::
  "env \<Rightarrow> criteria \<Rightarrow> int option \<Rightarrow> datetime option \<Rightarrow> string option \<Rightarrow> string list
     \<Rightarrow> soup list \<Rightarrow> pystate \<Rightarrow> soup list \<times> pystate" where
  "scan_folders E crit td sd kw [] soups st = (soups, st)"
| "scan_folders E crit td sd kw (f # fs) soups st =
     (case scan_folder E crit td sd kw f soups st of
        (folder_error, soups1, st1) \<Rightarrow> scan_folders E crit td sd kw fs soups1 st1)"

definition folders :: "string list" where
  "folders =
     [''INBOX'', ''SENT'', ''DRAFTS'', ''JUNK'', ''TRASH'', ''ARCHIVE'', ''Trash'',
      ''DraftBox'', ''Spam'', ''Sentbox'', ''Archive'', ''Deleted'', ''Drafts'', ''Inbox'',
      ''Junk'', ''Notes'', ''Outbox'', ''Sent'']"

text \<open>
  Lines 250 to 256: the dictionary \<^verbatim>\<open>search_criteria\<close>. The key \<^verbatim>\<open>seen\<close> is set when
  the argument is not \<^verbatim>\<open>None\<close>, the other two when their argument is true.
\<close>

definition search_criteria :: "bool option \<Rightarrow> string option \<Rightarrow> string option \<Rightarrow> criteria" where
  "search_criteria seen scrapsub sender =
     \<lparr>c_seen = seen,
      c_subject = (if truthy scrapsub then scrapsub else None),
      c_from = (if truthy sender then sender else None)\<rparr>"

text \<open>
  The undecorated method. The result \<open>None\<close> is Python's \<^verbatim>\<open>None\<close>, \<open>Some soups\<close> the
  list of parsed bodies.
\<close>

definition scrap_body ::
  "env \<Rightarrow> string option \<Rightarrow> string option \<Rightarrow> string option \<Rightarrow> bool option \<Rightarrow> int option
     \<Rightarrow> datetime option \<Rightarrow> pystate \<Rightarrow> (exn + soup list option) \<times> pystate" where
  "scrap_body E scrapsub sender keyword seen time_diff specific_date st =
     (if mailbox (this st) \<noteq> None then
        if \<not> (truthy scrapsub \<or> truthy sender \<or> truthy keyword)
          then (Inl (ValueError
                  ''At least one of 'scrapsub', 'sender', 'keyword' must be provided.''), st)
        else
          (case scan_folders E (search_criteria seen scrapsub sender)
                  time_diff specific_date keyword folders [] st of
             (soups, st1) \<Rightarrow> (Inr (if soups = [] then None else Some soups), st1))
      else (Inr None, st))"

definition scrap ::
  "env \<Rightarrow> string option \<Rightarrow> string option \<Rightarrow> string option \<Rightarrow> bool option \<Rightarrow> int option
     \<Rightarrow> datetime option \<Rightarrow> pystate \<Rightarrow> (exn + soup list option) \<times> pystate" where
  "scrap E scrapsub sender keyword seen time_diff specific_date =
     retry (scrap_body E scrapsub sender keyword seen time_diff specific_date)"

subsection \<open>Observations on a trace\<close>

fun connect_args :: "event \<Rightarrow> conn_args option" where
  "connect_args (Connect a) = Some a"
| "connect_args _ = None"

text \<open>The proxy protocol and the timeout of every connection attempt, newest first.\<close>

definition tunnel_protocols :: "pystate \<Rightarrow> int list" where
  "tunnel_protocols st = map ca_proxy_type (List.map_filter connect_args (trace st))"

definition connect_timeouts :: "pystate \<Rightarrow> int list" where
  "connect_timeouts st = map ca_timeout (List.map_filter connect_args (trace st))"

subsection \<open>What a folder holds and what a scan should return from it\<close>

text \<open>
  The scan of the folder \<open>f\<close> completes when the folder can be selected, the query can
  be built, the search answers, every matched message can be fetched, and filtering
  no message raises.
\<close>

definition folder_succeeds :: "env \<Rightarrow> criteria \<Rightarrow> int option \<Rightarrow> string \<Rightarrow> bool" where
  "folder_succeeds E crit td f =
     (case e_set E f of
        Inl e \<Rightarrow> False
      | Inr b \<Rightarrow>
          e_query E crit = None \<and>
          (case e_search E f crit of
             Inl e \<Rightarrow> False
           | Inr ms \<Rightarrow>
               list_all (\<lambda>m. e_fetch E f (msg_uid m) = None \<and>
                          (case too_old E f td m of Inl e \<Rightarrow> False | Inr b \<Rightarrow> True)) ms))"

text \<open>The messages of the folder \<open>f\<close> that the search matches.\<close>

definition found :: "env \<Rightarrow> criteria \<Rightarrow> string \<Rightarrow> message list" where
  "found E crit f = (case e_search E f crit of Inl e \<Rightarrow> [] | Inr ms \<Rightarrow> ms)"

text \<open>The parsed bodies of those of the messages \<open>ms\<close> that pass the three filters.\<close>

definition kept ::
  "env \<Rightarrow> string \<Rightarrow> int option \<Rightarrow> datetime option \<Rightarrow> string option \<Rightarrow> message list
     \<Rightarrow> soup list" where
  "kept E f td sd kw ms =
     List.map_filter
       (\<lambda>m. case filter_msg E f td sd kw m of Inr (Some s) \<Rightarrow> Some s | _ \<Rightarrow> None) ms"

definition folder_matches ::
  "env \<Rightarrow> criteria \<Rightarrow> int option \<Rightarrow> datetime option \<Rightarrow> string option \<Rightarrow> string
     \<Rightarrow> soup list" where
  "folder_matches E crit td sd kw f = kept E f td sd kw (found E crit f)"

text \<open>
  The loop handles the message \<open>m\<close> of the folder \<open>f\<close> without error: its fetch
  succeeds and filtering it does not raise. Whether the filters keep the message
  plays no part.
\<close>

definition msg_ok :: "env \<Rightarrow> string \<Rightarrow> int option \<Rightarrow> message \<Rightarrow> bool" where
  "msg_ok E f td m =
     (e_fetch E f (msg_uid m) = None \<and>
      (case too_old E f td m of Inl e \<Rightarrow> False | Inr b \<Rightarrow> True))"

text \<open>The folder can be selected, the query can be built and the search answers.\<close>

definition folder_opens :: "env \<Rightarrow> criteria \<Rightarrow> string \<Rightarrow> bool" where
  "folder_opens E crit f =
     (case e_set E f of
        Inl e \<Rightarrow> False
      | Inr b \<Rightarrow>
          e_query E crit = None \<and>
          (case e_search E f crit of Inl e \<Rightarrow> False | Inr ms \<Rightarrow> True))"

text \<open>
  The matched messages of the folder \<open>f\<close> that come before the first error: all of
  them when the scan of the folder completes, none when the folder does not open.
\<close>

definition handled :: "env \<Rightarrow> criteria \<Rightarrow> int option \<Rightarrow> string \<Rightarrow> message list" where
  "handled E crit td f =
     (if folder_opens E crit f then takeWhile (msg_ok E f td) (found E crit f) else [])"

text \<open>What the folder \<open>f\<close> should add to the result: the parsed bodies kept among them.\<close>

definition folder_yield ::
  "env \<Rightarrow> criteria \<Rightarrow> int option \<Rightarrow> datetime option \<Rightarrow> string option \<Rightarrow> string
     \<Rightarrow> soup list" where
  "folder_yield E crit td sd kw f = kept E f td sd kw (handled E crit td f)"

text \<open>\<^verbatim>\<open>soups if soups else None\<close>\<close>

definition result_of :: "soup list \<Rightarrow> soup list option" where
  "result_of soups = (if soups = [] then None else Some soups)"


text \<open>
  A connection attempt made as HTTP with a timeout of 10 seconds; every other event
  passes.
\<close>

fun http_attempt :: "event \<Rightarrow> bool" where
  "http_attempt (Connect a) = (ca_proxy_type a = socks_HTTP \<and> ca_timeout a = 10)"
| "http_attempt _ = True"

text \<open>From \<open>st\<close> to \<open>st'\<close> the trace only gains events, and all of them satisfy \<open>Q\<close>.\<close>

definition adds_only :: "(event \<Rightarrow> bool) \<Rightarrow> pystate \<Rightarrow> pystate \<Rightarrow> bool" where
  "adds_only Q st st' = (\<exists>new. trace st' = new @ trace st \<and> list_all Q new)"

subsection \<open>Concrete environments and states\<close>

text \<open>A network on which every call succeeds and every folder is empty.\<close>

definition env_up :: env where
  "env_up =
     \<lparr>e_connect = (\<lambda>k. None), e_wrap = (\<lambda>k. None), e_greet = (\<lambda>k. None),
      e_has_sni = True, e_direct = (\<lambda>h. None), e_login = (\<lambda>a b. None),
      e_set = (\<lambda>f. Inr True), e_query = (\<lambda>c. None), e_search = (\<lambda>f c. Inr []),
      e_fetch = (\<lambda>f i. None), e_now = (\<lambda>f i. 0)\<rparr>"

text \<open>The proxy refuses every connection.\<close>

definition env_down :: env where
  "env_down = env_up\<lparr>e_connect := (\<lambda>k. Some (LibraryError ''connection refused''))\<rparr>"

text \<open>The proxy refuses the first two connections and accepts the third.\<close>

definition env_flaky :: env where
  "env_flaky =
     env_up\<lparr>e_connect := (\<lambda>k. if k < 2 then Some (LibraryError ''connection refused'')
                                 else None)\<rparr>"

text \<open>
  \<^verbatim>\<open>ProxyConfig(proxy_type='SOCKS5', proxy_addr='10.0.0.1', proxy_port=1080, timeout=30)\<close>
\<close>

definition cfg_socks5 :: ProxyConfig where
  "cfg_socks5 =
     \<lparr>proxy_type = PStr ''SOCKS5'', proxy_addr = ''10.0.0.1'', proxy_port = 1080,
      proxy_username = None, proxy_password = None, timeout = Some 30\<rparr>"

text \<open>The state before a \<^verbatim>\<open>MailKit\<close> is built: that configuration is in the heap.\<close>

definition st_fresh :: pystate where
  "st_fresh =
     \<lparr>trace = [], heap = (\<lambda>a. cfg_socks5),
      this = \<lparr>u = [], pw = [], mailbox = None, login_status = False, proxy = None\<rparr>\<rparr>"

text \<open>A logged-in \<^verbatim>\<open>MailKit\<close> without a proxy.\<close>

definition st_auth :: pystate where
  "st_auth =
     st_fresh\<lparr>this := \<lparr>u = ''user@gmail.com'', pw = ''secret'',
                         mailbox = Some (MailBox ''imap.gmail.com''), login_status = True,
                         proxy = None\<rparr>\<rparr>"

text \<open>The proxied mailbox that \<^verbatim>\<open>connect_and_login\<close> builds from \<open>cfg_socks5\<close>.\<close>

definition mbp_gmail :: MailBoxProxy where
  "mbp_gmail =
     \<lparr>p_host = ''imap.gmail.com'', p_port = 993, p_keyfile = None, p_certfile = None,
      p_ssl_context = None, p_timeout = Some 30, p_proxy_type = ''HTTP'',
      p_proxy_addr = ''10.0.0.1'', p_proxy_port = 1080, p_proxy_rdns = True,
      p_proxy_username = None, p_proxy_password = None\<rparr>"

definition client_gmail :: SocksIMAP4SSL where
  "client_gmail =
     \<lparr>host = ''imap.gmail.com'', port = 993, proxy_addr' = ''10.0.0.1'', proxy_port' = 1080,
      rdns = True, username = None, password = None, proxy_type' = socks_HTTP,
      keyfile = None, certfile = None, ssl_context = Some ''stdlib''\<rparr>"

text \<open>Two messages: the first has a text body, the second only an HTML body.\<close>

definition msg_invoice :: message where
  "msg_invoice =
     \<lparr>msg_uid = 1, msg_date = \<lparr>aware = False, wall = 0\<rparr>,
      msg_text = ''invoice#4471'', msg_html = []\<rparr>"

definition msg_notice :: message where
  "msg_notice =
     \<lparr>msg_uid = 2, msg_date = \<lparr>aware = False, wall = 0\<rparr>,
      msg_text = [], msg_html = ''<p>Your parcel has shipped</p>''\<rparr>"

text \<open>
  A mailbox whose folder \<^verbatim>\<open>INBOX\<close> holds these two messages, whose folder \<^verbatim>\<open>SENT\<close>
  cannot be selected, and whose other folders are empty.
\<close>

definition env_mail :: env where
  "env_mail =
     env_up\<lparr>e_set := (\<lambda>f. if f = ''SENT'' then Inl (LibraryError ''select failed'')
                           else Inr True),
            e_search := (\<lambda>f c. if f = ''INBOX'' then Inr [msg_invoice, msg_notice]
                                else Inr [])\<rparr>"

text \<open>A third message, and a message whose date carries a time zone.\<close>

definition msg_receipt :: message where
  "msg_receipt =
     \<lparr>msg_uid = 3, msg_date = \<lparr>aware = False, wall = 0\<rparr>,
      msg_text = ''invoice receipt'', msg_html = []\<rparr>"

definition msg_aware :: message where
  "msg_aware =
     \<lparr>msg_uid = 4, msg_date = \<lparr>aware = True, wall = 0\<rparr>,
      msg_text = ''invoice due'', msg_html = []\<rparr>"

text \<open>
  A mailbox in which every folder opens; \<^verbatim>\<open>INBOX\<close> holds the first two messages,
  \<^verbatim>\<open>SENT\<close> holds the third and the second, and in \<^verbatim>\<open>SENT\<close> the fetch of the second
  fails.
\<close>

definition env_sent_breaks :: env where
  "env_sent_breaks =
     env_up\<lparr>e_search := (\<lambda>f c. if f = ''INBOX'' then Inr [msg_invoice, msg_notice]
                                else if f = ''SENT'' then Inr [msg_receipt, msg_notice]
                                else Inr []),
            e_fetch := (\<lambda>f i. if f = ''SENT'' \<and> i = 2 then Some (LibraryError ''fetch failed'')
                               else None)\<rparr>"

text \<open>A mailbox whose \<^verbatim>\<open>INBOX\<close> holds the message with a time zone, then the first.\<close>

definition env_aware :: env where
  "env_aware =
     env_up\<lparr>e_search := (\<lambda>f c. if f = ''INBOX'' then Inr [msg_aware, msg_invoice]
                                else Inr [])\<rparr>"

section \<open>Properties\<close>

subsection \<open>The retry decorator\<close>

lemma retry_from_Inr: "f st = (Inr v, st') \<Longrightarrow> retry_from n d k f st = (Inr v, st')"
  by (simp add: retry_from.simps)

lemma retry_from_stop:
  "f st = (Inl e, st') \<Longrightarrow> is_Exception e \<Longrightarrow> n \<le> k
     \<Longrightarrow> retry_from n d k f st = (Inl (RetryError k e), st')"
  by (simp add: retry_from.simps)

lemma retry_from_again:
  "f st = (Inl e, st') \<Longrightarrow> is_Exception e \<Longrightarrow> k < n
     \<Longrightarrow> retry_from n d k f st = retry_from n d (Suc k) f (emit (Sleep d) st')"
  by (subst retry_from.simps) simp

text \<open>A value is returned by the first attempt, with no pause.\<close>

lemma retry_value: "f st = (Inr v, st') \<Longrightarrow> retry f st = (Inr v, st')"
  by (simp add: retry_def retry_from_Inr)

text \<open>A function that raises no \<^verbatim>\<open>Exception\<close> is run once.\<close>

lemma retry_no_retry:
  assumes "\<And>e st'. f st = (Inl e, st') \<Longrightarrow> \<not> is_Exception e"
  shows "retry f st = f st"
proof (cases "f st")
  case (Pair r st')
  then show ?thesis
    using assms by (cases r) (simp_all add: retry_def retry_from.simps)
qed

lemma this_emit [simp]: "this (emit ev st) = this st"
  by (simp add: emit_def)

lemma heap_emit [simp]: "heap (emit ev st) = heap st"
  by (simp add: emit_def)

lemma trace_emit [simp]: "trace (emit ev st) = ev # trace st"
  by (simp add: emit_def)

lemma attempts_emit_Sleep [simp]: "attempts (emit (Sleep d) st) = attempts st"
  by (simp add: attempts_def emit_def connects_def)

lemma attempts_emit_Connect [simp]: "attempts (emit (Connect a) st) = Suc (attempts st)"
  by (simp add: attempts_def emit_def connects_def)

lemma attempts_emit_WrapSocket [simp]: "attempts (emit (WrapSocket h) st) = attempts st"
  by (simp add: attempts_def emit_def connects_def)

lemma attempts_emit_Greeting [simp]: "attempts (emit Greeting st) = attempts st"
  by (simp add: attempts_def emit_def connects_def)

text \<open>
  Three attempts of a function that always raises an \<^verbatim>\<open>Exception\<close>: the decorator
  raises \<^verbatim>\<open>RetryError\<close>, and the connection attempts of the three runs add up.
\<close>

lemma retry_all_fail:
  assumes "\<And>st. \<exists>e st'. f st = (Inl e, st') \<and> is_Exception e \<and> attempts st' = attempts st + c"
  shows "\<exists>e st'. retry f st = (Inl (RetryError 3 e), st') \<and> attempts st' = attempts st + 3 * c"
proof -
  obtain e1 st1 where 1: "f st = (Inl e1, st1)" "is_Exception e1" "attempts st1 = attempts st + c"
    using assms by blast
  obtain e2 st2 where 2: "f (emit (Sleep 3) st1) = (Inl e2, st2)" "is_Exception e2"
      "attempts st2 = attempts (emit (Sleep 3) st1) + c"
    using assms by blast
  obtain e3 st3 where 3: "f (emit (Sleep 3) st2) = (Inl e3, st3)" "is_Exception e3"
      "attempts st3 = attempts (emit (Sleep 3) st2) + c"
    using assms by blast
  have "retry f st = retry_from 3 3 (Suc 1) f (emit (Sleep 3) st1)"
    unfolding retry_def by (rule retry_from_again) (use 1 in simp_all)
  also have "\<dots> = retry_from 3 3 (Suc (Suc 1)) f (emit (Sleep 3) st2)"
    by (rule retry_from_again) (use 2 in simp_all)
  also have "\<dots> = (Inl (RetryError (Suc (Suc 1)) e3), st3)"
    by (rule retry_from_stop) (use 3 in simp_all)
  finally show ?thesis using 1(3) 2(3) 3(3) by simp
qed

text \<open>The decorator changes neither the heap nor the \<^verbatim>\<open>MailKit\<close> object by itself.\<close>

lemma retry_from_frame:
  assumes fr: "\<And>st r st'. f st = (r, st') \<Longrightarrow> heap st' = heap st \<and> this st' = this st"
  shows "retry_from n d k f st = (r, st') \<Longrightarrow> heap st' = heap st \<and> this st' = this st"
proof (induction "n - k" arbitrary: k st)
  case 0
  obtain r1 st1 where f1: "f st = (r1, st1)" by (cases "f st")
  from fr [OF f1] "0.prems" "0.hyps" f1 show ?case
    by (cases r1) (auto simp: retry_from.simps [of n d k] split: if_splits)
next
  case (Suc m)
  obtain r1 st1 where f1: "f st = (r1, st1)" by (cases "f st")
  note fr1 = fr [OF f1]
  show ?case
  proof (cases r1)
    case (Inr v)
    with f1 Suc.prems fr1 show ?thesis by (simp add: retry_from.simps [of n d k])
  next
    case (Inl e)
    show ?thesis
    proof (cases "is_Exception e")
      case True
      have "\<not> n \<le> k" using Suc.hyps(2) by arith
      with True f1 Inl Suc.prems
      have "retry_from n d (Suc k) f (emit (Sleep d) st1) = (r, st')"
        by (simp add: retry_from.simps [of n d k])
      from Suc.hyps(1) [OF _ this] Suc.hyps(2)
      have "heap st' = heap (emit (Sleep d) st1) \<and> this st' = this (emit (Sleep d) st1)"
        by simp
      with fr1 show ?thesis by simp
    next
      case False
      with f1 Inl Suc.prems fr1 show ?thesis
        by (simp add: retry_from.simps [of n d k])
    qed
  qed
qed

lemma retry_frame:
  assumes "\<And>st r st'. f st = (r, st') \<Longrightarrow> heap st' = heap st \<and> this st' = this st"
  shows "retry f st = (r, st') \<Longrightarrow> heap st' = heap st \<and> this st' = this st"
  unfolding retry_def by (erule retry_from_frame [rotated]) (erule assms)

subsection \<open>Opening the proxied connection\<close>

lemma socks_create_connection_eq:
  "socks_create_connection E a st =
     (case e_connect E (attempts st) of None \<Rightarrow> Inr (attempts st) | Some e \<Rightarrow> Inl e,
      emit (Connect a) st)"
  by (simp add: socks_create_connection_def Let_def split: option.splits)

lemma socks_create_connection_fails:
  assumes "\<forall>k. \<exists>e. e_connect E k = Some e \<and> is_Exception e"
  shows "\<exists>e st'. socks_create_connection E a st = (Inl e, st') \<and> is_Exception e
           \<and> attempts st' = attempts st + 1"
proof -
  obtain e where "e_connect E (attempts st) = Some e" "is_Exception e"
    using assms by blast
  then show ?thesis by (simp add: socks_create_connection_eq)
qed

lemma SocksIMAP4_create_socket_fails:
  assumes "\<forall>k. \<exists>e. e_connect E k = Some e \<and> is_Exception e"
  shows "\<exists>e st'. SocksIMAP4_create_socket E self tmo st = (Inl (RetryError 3 e), st')
           \<and> attempts st' = attempts st + 3"
  unfolding SocksIMAP4_create_socket_def
  using retry_all_fail [where c = 1, OF socks_create_connection_fails [OF assms]] by simp

lemma SocksIMAP4_create_socket_last_error:
  assumes "e_connect E (attempts st) = Some e1" "is_Exception e1"
    and "e_connect E (attempts st + 1) = Some e2" "is_Exception e2"
    and "e_connect E (attempts st + 2) = Some e3" "is_Exception e3"
  shows "fst (SocksIMAP4_create_socket E self tmo st) = Inl (RetryError 3 e3)"
  using assms
  by (simp add: SocksIMAP4_create_socket_def retry_def retry_from.simps
      socks_create_connection_eq)

lemma SocksIMAP4_create_socket_third:
  assumes "e_connect E (attempts st) = Some e1" "is_Exception e1"
    and "e_connect E (attempts st + 1) = Some e2" "is_Exception e2"
    and "e_connect E (attempts st + 2) = None"
  shows "\<exists>st'. SocksIMAP4_create_socket E self tmo st = (Inr (attempts st + 2), st')
           \<and> attempts st' = attempts st + 3
           \<and> filter is_WrapSocket (trace st') = filter is_WrapSocket (trace st)
           \<and> filter is_Greeting (trace st') = filter is_Greeting (trace st)"
  using assms
  by (simp add: SocksIMAP4_create_socket_def retry_def retry_from.simps
      socks_create_connection_eq)

lemma SocksIMAP4SSL_create_socket_fails:
  assumes "\<forall>k. \<exists>e. e_connect E k = Some e \<and> is_Exception e"
  shows "\<exists>e st'. SocksIMAP4SSL_create_socket E self tmo st = (Inl (RetryError 3 e), st')
           \<and> attempts st' = attempts st + 9"
proof -
  have "\<exists>e st'. (case SocksIMAP4_create_socket E self tmo st of
            (Inl e, st1) \<Rightarrow> (Inl e, st1)
          | (Inr sock, st1) \<Rightarrow>
              wrap_socket E sock (if e_has_sni E then Some (host self) else None) st1)
          = (Inl e, st') \<and> is_Exception e \<and> attempts st' = attempts st + 3" for st
    using SocksIMAP4_create_socket_fails [OF assms, of self tmo st] by auto
  from retry_all_fail [where c = 3, OF this] show ?thesis
    unfolding SocksIMAP4SSL_create_socket_def by simp
qed

lemma IMAP4_open_fails:
  assumes "\<forall>k. \<exists>e. e_connect E k = Some e \<and> is_Exception e"
  shows "\<exists>e st'. IMAP4_open E self h p tmo st = (Inl e, st') \<and> is_Exception e
           \<and> attempts st' = attempts st + 9"
  using SocksIMAP4SSL_create_socket_fails [OF assms, of "self\<lparr>host := h, port := p\<rparr>" tmo st]
  by (auto simp: IMAP4_open_def Let_def)

lemma SocksIMAP4SSL_open_fails:
  assumes "\<forall>k. \<exists>e. e_connect E k = Some e \<and> is_Exception e"
  shows "\<exists>e st'. SocksIMAP4SSL_open E self h p tmo st = (Inl (RetryError 3 e), st')
           \<and> attempts st' = attempts st + 27"
  unfolding SocksIMAP4SSL_open_def
  using retry_all_fail [where c = 9, OF IMAP4_open_fails [OF assms]] by simp

lemma IMAP4_init_fails:
  assumes "\<forall>k. \<exists>e. e_connect E k = Some e \<and> is_Exception e"
  shows "\<exists>e st'. IMAP4_init E self h p tmo st = (Inl e, st') \<and> is_Exception e
           \<and> attempts st' = attempts st + 27"
  using SocksIMAP4SSL_open_fails [OF assms, of self h p tmo st]
  by (auto simp: IMAP4_init_def)

lemma get_mailbox_client_fails:
  assumes "\<forall>k. \<exists>e. e_connect E k = Some e \<and> is_Exception e"
    and "p_ssl_context self = None" and "map_of PROXY_TYPES (lower (p_proxy_type self)) \<noteq> None"
  shows "\<exists>e st'. MailBoxProxy_get_mailbox_client E self st = (Inl (RetryError 3 e), st')
           \<and> attempts st' = attempts st + 81"
proof -
  have "\<exists>e st'. SocksIMAP4SSL_init E (p_host self) (p_port self) (p_keyfile self)
       (p_certfile self) (p_ssl_context self) (p_proxy_addr self) (p_proxy_port self)
       (p_proxy_rdns self) (p_proxy_username self) (p_proxy_password self)
       (p_proxy_type self) (p_timeout self) st = (Inl e, st') \<and> is_Exception e
         \<and> attempts st' = attempts st + 27" for st
    using assms(2,3) IMAP4_init_fails [OF assms(1)]
    by (auto simp: SocksIMAP4SSL_init_def)
  from retry_all_fail [where c = 27, OF this] show ?thesis
    unfolding MailBoxProxy_get_mailbox_client_def by simp
qed

lemma get_mailbox_client_third:
  assumes "e_connect E (attempts st) = Some e1" "is_Exception e1"
    and "e_connect E (attempts st + 1) = Some e2" "is_Exception e2"
    and "e_connect E (attempts st + 2) = None"
    and "e_wrap E (length (filter is_WrapSocket (trace st))) = None"
    and "e_greet E (length (filter is_Greeting (trace st))) = None"
    and "p_ssl_context self = None" and "map_of PROXY_TYPES (lower (p_proxy_type self)) \<noteq> None"
  shows "\<exists>client st'. MailBoxProxy_get_mailbox_client E self st = (Inr client, st')
           \<and> attempts st' = attempts st + 3"
proof -
  obtain code where code: "map_of PROXY_TYPES (lower (p_proxy_type self)) = Some code"
    using assms(9) by blast
  let ?self = "\<lparr>host = p_host self, port = p_port self, proxy_addr' = p_proxy_addr self,
      proxy_port' = p_proxy_port self, rdns = p_proxy_rdns self,
      username = p_proxy_username self, password = p_proxy_password self,
      proxy_type' = code, keyfile = p_keyfile self, certfile = p_certfile self,
      ssl_context = Some ''stdlib''\<rparr>"
  obtain st1 where 1: "SocksIMAP4_create_socket E ?self (p_timeout self) st
        = (Inr (attempts st + 2), st1)" "attempts st1 = attempts st + 3"
      "filter is_WrapSocket (trace st1) = filter is_WrapSocket (trace st)"
      "filter is_Greeting (trace st1) = filter is_Greeting (trace st)"
    using SocksIMAP4_create_socket_third [OF assms(1-5), of ?self "p_timeout self"] by blast
  show ?thesis
    using 1 assms(6-8) code
    by (simp add: MailBoxProxy_get_mailbox_client_def SocksIMAP4SSL_init_def IMAP4_init_def
      SocksIMAP4SSL_open_def IMAP4_open_def SocksIMAP4SSL_create_socket_def
      retry_value wrap_socket_def Let_def)
qed


lemmas connection_defs =
  MailBoxProxy_init_def MailBoxProxy_get_mailbox_client_def SocksIMAP4SSL_init_def
  PROXY_TYPES_def lower_def lower_char_def IMAP4_init_def SocksIMAP4SSL_open_def
  IMAP4_open_def SocksIMAP4SSL_create_socket_def SocksIMAP4_create_socket_def
  socks_create_connection_eq wrap_socket_def retry_def retry_from.simps

lemmas login_defs =
  MailKit_init_def connect_and_login_def connect_and_login_body_def connect_try_def
  providers_def translate_proxy_type_def upper_def upper_char_def login_and_select_def
  MailBox_init_def

lemmas example_defs =
  env_up_def env_down_def env_flaky_def cfg_socks5_def st_fresh_def st_auth_def
  mbp_gmail_def client_gmail_def

lemmas observation_defs =
  tunnel_protocols_def connect_timeouts_def List.map_filter_def attempts_def connects_def
  emit_def

subsection \<open>Claim C1: the tunnel protocol follows the configured proxy type\<close>

text \<open>
  C1 says that a \<^verbatim>\<open>MailKit\<close> built with a \<^verbatim>\<open>ProxyConfig\<close> of type \<^verbatim>\<open>'SOCKS5'\<close>
  negotiates its tunnel with the SOCKS5 protocol. The code does not: line 195 of
  main.py passes the literal \<^verbatim>\<open>p_proxy_type='HTTP'\<close>. Here the configuration
  \<open>cfg_socks5\<close> passes validation, the construction succeeds on a network where
  every call succeeds, and the one connection attempt it makes is made with the proxy
  type \<^verbatim>\<open>socks.HTTP\<close>, which is not \<^verbatim>\<open>socks.SOCKS5\<close>.
\<close>

theorem C1_socks5_config_tunnels_as_http:
  "ProxyConfig_new (PStr ''SOCKS5'') ''10.0.0.1'' 1080 None None (Given (Some 30))
     = Inr cfg_socks5
   \<and> fst (MailKit_init env_up ''user@gmail.com'' ''secret'' (Some 0) st_fresh) = Inr ()
   \<and> tunnel_protocols (snd (MailKit_init env_up ''user@gmail.com'' ''secret'' (Some 0) st_fresh))
     = [socks_HTTP]
   \<and> socks_HTTP \<noteq> socks_SOCKS5"
  by (simp add: ProxyConfig_new_def login_defs connection_defs example_defs observation_defs
      socks_HTTP_def socks_SOCKS5_def socks_SOCKS4_def)

subsection \<open>Claim C6: the connect timeout is the configured one\<close>

text \<open>
  C6 says that the proxied socket connect uses the timeout of the \<^verbatim>\<open>ProxyConfig\<close>.
  The code does not: \<^verbatim>\<open>SocksIMAP4._create_socket\<close> receives the timeout and calls
  \<^verbatim>\<open>socks.create_connection\<close> with the literal \<^verbatim>\<open>timeout=10\<close>. Here the
  configuration asks for 30 seconds and the connection attempt is made with 10.
\<close>

theorem C6_configured_timeout_not_used:
  "timeout cfg_socks5 = Some 30
   \<and> connect_timeouts
       (snd (MailKit_init env_up ''user@gmail.com'' ''secret'' (Some 0) st_fresh)) = [10]"
  by (simp add: login_defs connection_defs example_defs observation_defs
      socks_HTTP_def socks_SOCKS5_def socks_SOCKS4_def)

subsection \<open>Claim C3: the number of connection attempts\<close>

text \<open>
  C3 as stated fails. When the proxy refuses every connection,
  \<^verbatim>\<open>MailBoxProxy._get_mailbox_client\<close>, the connect operation behind every proxied
  \<^verbatim>\<open>MailKit\<close>, makes 81 connection attempts and not 3, and what it raises is a
  \<^verbatim>\<open>RetryError\<close> nested four deep, not the last error.
\<close>

theorem C3_all_layers_counterexample:
  "attempts (snd (MailBoxProxy_get_mailbox_client env_down mbp_gmail st_fresh)) = 81
   \<and> fst (MailBoxProxy_get_mailbox_client env_down mbp_gmail st_fresh)
       = Inl (RetryError 3 (RetryError 3 (RetryError 3 (RetryError 3
           (LibraryError ''connection refused'')))))"
  by (simp add: connection_defs example_defs observation_defs
      socks_HTTP_def socks_SOCKS5_def socks_SOCKS4_def)


text \<open>
  C3, amended. When every connection attempt fails, \<^verbatim>\<open>SocksIMAP4._create_socket\<close>
  makes exactly 3 attempts and raises \<^verbatim>\<open>RetryError\<close> around the error of the third;
  the decorated methods that call it repeat it, so that
  \<^verbatim>\<open>SocksIMAP4SSL._create_socket\<close> makes 9 attempts, \<^verbatim>\<open>SocksIMAP4SSL.open\<close> 27 and
  \<^verbatim>\<open>MailBoxProxy._get_mailbox_client\<close> 81, each raising \<^verbatim>\<open>RetryError\<close>. When the
  first two attempts fail and the third succeeds, exactly 3 attempts are made, and
  the client is established if wrapping the socket and the greeting succeed.
\<close>

theorem C3_retry_layers_multiply:
  "((\<forall>k. \<exists>e. e_connect E k = Some e \<and> is_Exception e) \<longrightarrow>
      (\<exists>e st'. SocksIMAP4_create_socket E self tmo st = (Inl (RetryError 3 e), st')
         \<and> e_connect E (attempts st + 2) = Some e \<and> attempts st' = attempts st + 3)
    \<and> (\<exists>e st'. SocksIMAP4SSL_create_socket E self tmo st = (Inl (RetryError 3 e), st')
         \<and> attempts st' = attempts st + 9)
    \<and> (\<exists>e st'. SocksIMAP4SSL_open E self h p tmo st = (Inl (RetryError 3 e), st')
         \<and> attempts st' = attempts st + 27)
    \<and> (p_ssl_context mbp = None \<and> map_of PROXY_TYPES (lower (p_proxy_type mbp)) \<noteq> None \<longrightarrow>
         (\<exists>e st'. MailBoxProxy_get_mailbox_client E mbp st = (Inl (RetryError 3 e), st')
            \<and> attempts st' = attempts st + 81)))
   \<and> ((\<exists>e1 e2. e_connect E (attempts st) = Some e1 \<and> is_Exception e1
          \<and> e_connect E (attempts st + 1) = Some e2 \<and> is_Exception e2)
        \<and> e_connect E (attempts st + 2) = None \<longrightarrow>
      (\<exists>sock st'. SocksIMAP4_create_socket E self tmo st = (Inr sock, st')
         \<and> attempts st' = attempts st + 3)
    \<and> (e_wrap E (length (filter is_WrapSocket (trace st))) = None
        \<and> e_greet E (length (filter is_Greeting (trace st))) = None
        \<and> p_ssl_context mbp = None \<and> map_of PROXY_TYPES (lower (p_proxy_type mbp)) \<noteq> None \<longrightarrow>
         (\<exists>client st'. MailBoxProxy_get_mailbox_client E mbp st = (Inr client, st')
            \<and> attempts st' = attempts st + 3)))"
proof (intro conjI impI)
  assume down: "\<forall>k. \<exists>e. e_connect E k = Some e \<and> is_Exception e"
  obtain e1 e2 e3 where e:
      "e_connect E (attempts st) = Some e1" "is_Exception e1"
      "e_connect E (attempts st + 1) = Some e2" "is_Exception e2"
      "e_connect E (attempts st + 2) = Some e3" "is_Exception e3"
    using down by metis
  from SocksIMAP4_create_socket_fails [OF down, of self tmo st]
    SocksIMAP4_create_socket_last_error [OF e, of self tmo]
  show "\<exists>e st'. SocksIMAP4_create_socket E self tmo st = (Inl (RetryError 3 e), st')
         \<and> e_connect E (attempts st + 2) = Some e \<and> attempts st' = attempts st + 3"
    using e(5) by auto
  show "\<exists>e st'. SocksIMAP4SSL_create_socket E self tmo st = (Inl (RetryError 3 e), st')
         \<and> attempts st' = attempts st + 9"
    by (rule SocksIMAP4SSL_create_socket_fails [OF down])
  show "\<exists>e st'. SocksIMAP4SSL_open E self h p tmo st = (Inl (RetryError 3 e), st')
         \<and> attempts st' = attempts st + 27"
    by (rule SocksIMAP4SSL_open_fails [OF down])
  assume "p_ssl_context mbp = None \<and> map_of PROXY_TYPES (lower (p_proxy_type mbp)) \<noteq> None"
  then show "\<exists>e st'. MailBoxProxy_get_mailbox_client E mbp st = (Inl (RetryError 3 e), st')
            \<and> attempts st' = attempts st + 81"
    using get_mailbox_client_fails [OF down] by blast
next
  assume a: "(\<exists>e1 e2. e_connect E (attempts st) = Some e1 \<and> is_Exception e1
          \<and> e_connect E (attempts st + 1) = Some e2 \<and> is_Exception e2)
        \<and> e_connect E (attempts st + 2) = None"
  then obtain e1 e2 where e:
      "e_connect E (attempts st) = Some e1" "is_Exception e1"
      "e_connect E (attempts st + 1) = Some e2" "is_Exception e2"
      "e_connect E (attempts st + 2) = None"
    by blast
  from SocksIMAP4_create_socket_third [OF e, of self tmo]
  show "\<exists>sock st'. SocksIMAP4_create_socket E self tmo st = (Inr sock, st')
         \<and> attempts st' = attempts st + 3"
    by blast
  assume "e_wrap E (length (filter is_WrapSocket (trace st))) = None
        \<and> e_greet E (length (filter is_Greeting (trace st))) = None
        \<and> p_ssl_context mbp = None \<and> map_of PROXY_TYPES (lower (p_proxy_type mbp)) \<noteq> None"
  then show "\<exists>client st'. MailBoxProxy_get_mailbox_client E mbp st = (Inr client, st')
            \<and> attempts st' = attempts st + 3"
    using get_mailbox_client_third [OF e] by blast
qed

text \<open>
  The amended C3 on two networks: one refuses every connection, one refuses the
  first two.
\<close>

theorem C3_retry_layers_witness:
  "attempts (snd (SocksIMAP4_create_socket env_down client_gmail (Some 30) st_fresh)) = 3
   \<and> fst (SocksIMAP4_create_socket env_down client_gmail (Some 30) st_fresh)
       = Inl (RetryError 3 (LibraryError ''connection refused''))
   \<and> attempts (snd (SocksIMAP4SSL_create_socket env_down client_gmail (Some 30) st_fresh)) = 9
   \<and> attempts (snd (SocksIMAP4SSL_open env_down client_gmail ''imap.gmail.com'' 993 (Some 30)
        st_fresh)) = 27
   \<and> attempts (snd (MailBoxProxy_get_mailbox_client env_down mbp_gmail st_fresh)) = 81
   \<and> attempts (snd (SocksIMAP4_create_socket env_flaky client_gmail (Some 30) st_fresh)) = 3
   \<and> (\<exists>client. fst (MailBoxProxy_get_mailbox_client env_flaky mbp_gmail st_fresh) = Inr client)
   \<and> attempts (snd (MailBoxProxy_get_mailbox_client env_flaky mbp_gmail st_fresh)) = 3"
proof -
  have 0: "attempts st_fresh = 0" "trace st_fresh = []"
    by (simp_all add: attempts_def connects_def st_fresh_def)
  have 1: "\<forall>k. \<exists>e. e_connect env_down k = Some e \<and> is_Exception e"
    by (simp add: env_down_def env_up_def)
  have 2: "p_ssl_context mbp_gmail = None
      \<and> map_of PROXY_TYPES (lower (p_proxy_type mbp_gmail)) \<noteq> None"
    by (simp add: mbp_gmail_def PROXY_TYPES_def lower_def lower_char_def)
  have 3: "(\<exists>e1 e2. e_connect env_flaky (attempts st_fresh) = Some e1 \<and> is_Exception e1
          \<and> e_connect env_flaky (attempts st_fresh + 1) = Some e2 \<and> is_Exception e2)
        \<and> e_connect env_flaky (attempts st_fresh + 2) = None"
    by (simp add: 0 env_flaky_def env_up_def)
  have 4: "e_wrap env_flaky (length (filter is_WrapSocket (trace st_fresh))) = None
        \<and> e_greet env_flaky (length (filter is_Greeting (trace st_fresh))) = None"
    by (simp add: 0 env_flaky_def env_up_def)
  have 5: "e_connect env_down k = Some (LibraryError ''connection refused'')" for k
    by (simp add: env_down_def env_up_def)
  show ?thesis
    using C3_retry_layers_multiply [of env_down client_gmail "Some 30" st_fresh
        "''imap.gmail.com''" 993 mbp_gmail]
      C3_retry_layers_multiply [of env_flaky client_gmail "Some 30" st_fresh
        "''imap.gmail.com''" 993 mbp_gmail]
      1 2 3 4 5
    by (auto simp: 0)
qed

subsection \<open>Claim C4: a missing search criterion is not retried\<close>

text \<open>
  C4 as stated fails: the decorator of \<^verbatim>\<open>scrap\<close> retries the \<^verbatim>\<open>ValueError\<close>. The
  call ends at attempt number 3, after two pauses.
\<close>

theorem C4_validation_retried_counterexample:
  "fst (scrap env_up None None None None None None st_auth) =
     Inl (RetryError 3
        (ValueError ''At least one of 'scrapsub', 'sender', 'keyword' must be provided.''))
   \<and> trace (snd (scrap env_up None None None None None None st_auth)) = [Sleep 3, Sleep 3]"
  by (simp add: scrap_def scrap_body_def retry_def retry_from.simps emit_def st_auth_def
      st_fresh_def)

text \<open>
  C4, amended. On an authenticated client, \<^verbatim>\<open>scrap\<close> with \<^verbatim>\<open>scrapsub\<close>,
  \<^verbatim>\<open>sender\<close> and \<^verbatim>\<open>keyword\<close> all \<^verbatim>\<open>None\<close> runs the check three times, with two
  pauses of 3 seconds, and then raises \<^verbatim>\<open>RetryError\<close> around the \<^verbatim>\<open>ValueError\<close>.
  The trace gains the two pauses and nothing else: no network call is made.
\<close>

theorem C4_missing_criteria_is_retried:
  assumes "mailbox (this st) \<noteq> None"
  shows "scrap E None None None seen time_diff specific_date st =
       (Inl (RetryError 3
          (ValueError ''At least one of 'scrapsub', 'sender', 'keyword' must be provided.'')),
        st\<lparr>trace := Sleep 3 # Sleep 3 # trace st\<rparr>)
     \<and> network_calls (trace (snd (scrap E None None None seen time_diff specific_date st)))
         = network_calls (trace st)"
  using assms
  by (simp add: scrap_def scrap_body_def retry_def retry_from.simps emit_def
      network_calls_def)

text \<open>The amended C4 on a logged-in client.\<close>

theorem C4_missing_criteria_witness:
  "mailbox (this st_auth) \<noteq> None
   \<and> scrap env_up None None None (Some True) None None st_auth =
     (Inl (RetryError 3
        (ValueError ''At least one of 'scrapsub', 'sender', 'keyword' must be provided.'')),
      st_auth\<lparr>trace := Sleep 3 # Sleep 3 # trace st_auth\<rparr>)
   \<and> network_calls
       (trace (snd (scrap env_up None None None (Some True) None None st_auth))) = []"
proof -
  have "network_calls (trace st_auth) = []"
    by (simp add: network_calls_def st_auth_def st_fresh_def)
  moreover
  have "mailbox (this st_auth) \<noteq> None"
    by (simp add: st_auth_def st_fresh_def)
  ultimately show ?thesis
    using C4_missing_criteria_is_retried [of st_auth env_up "Some True" None None]
    by (simp add: network_calls_def)
qed

subsection \<open>Claim C5: an address without an at sign\<close>

text \<open>
  C5 as stated fails in its first half: the construction returns normally, and no
  validation error is raised. No network call is made.
\<close>

theorem C5_construction_succeeds_counterexample:
  "fst (MailKit_init env_up ''user.gmail.com'' ''secret'' None st_fresh) = Inr ()
   \<and> trace (snd (MailKit_init env_up ''user.gmail.com'' ''secret'' None st_fresh)) = []"
  by (simp add: login_defs retry_def retry_from.simps st_fresh_def)

lemma str_split_no_sep: "sep \<notin> set s \<Longrightarrow> str_split sep s = [s]"
  by (induction s) auto

text \<open>
  C5, amended. For an address without \<^verbatim>\<open>@\<close>, the construction of a \<^verbatim>\<open>MailKit\<close>
  does not fail: \<^verbatim>\<open>connect_and_login\<close> returns \<^verbatim>\<open>None\<close> without raising. The
  mailbox stays \<^verbatim>\<open>None\<close>, the login status false, and the trace is unchanged: no
  network call is made.
\<close>

theorem C5_no_at_sign_no_error:
  assumes "CHR ''@'' \<notin> set user"
  shows "connect_and_login E
         (st\<lparr>this := \<lparr>u = user, pw = passwd, mailbox = None, login_status = False,
                        proxy = prx\<rparr>\<rparr>)
       = (Inr None, st\<lparr>this := \<lparr>u = user, pw = passwd, mailbox = None,
                                    login_status = False, proxy = prx\<rparr>\<rparr>)
     \<and> MailKit_init E user passwd prx st =
         (Inr (), st\<lparr>this := \<lparr>u = user, pw = passwd, mailbox = None, login_status = False,
                                proxy = prx\<rparr>\<rparr>)
     \<and> network_calls (trace (snd (MailKit_init E user passwd prx st)))
         = network_calls (trace st)"
proof -
  let ?st = "st\<lparr>this := \<lparr>u = user, pw = passwd, mailbox = None, login_status = False,
                            proxy = prx\<rparr>\<rparr>"
  have "connect_and_login_body E ?st = (Inr None, ?st)"
    using assms by (simp add: connect_and_login_body_def str_split_no_sep)
  then have "connect_and_login E ?st = (Inr None, ?st)"
    by (simp add: connect_and_login_def retry_value)
  then show ?thesis by (simp add: MailKit_init_def)
qed

text \<open>The amended C5 on the address \<^verbatim>\<open>user.gmail.com\<close>.\<close>

theorem C5_no_at_sign_witness:
  "CHR ''@'' \<notin> set ''user.gmail.com''
   \<and> MailKit_init env_up ''user.gmail.com'' ''secret'' (Some 0) st_fresh =
     (Inr (), st_fresh\<lparr>this := \<lparr>u = ''user.gmail.com'', pw = ''secret'', mailbox = None,
                                  login_status = False, proxy = Some 0\<rparr>\<rparr>)
   \<and> network_calls
       (trace (snd (MailKit_init env_up ''user.gmail.com'' ''secret'' (Some 0) st_fresh))) = []"
proof -
  have "network_calls (trace st_fresh) = []" by (simp add: network_calls_def st_fresh_def)
  moreover
  have "CHR ''@'' \<notin> set ''user.gmail.com''" by simp
  ultimately show ?thesis
    using C5_no_at_sign_no_error [of "''user.gmail.com''" env_up "''secret''" "Some 0" st_fresh]
    by simp
qed

subsection \<open>Claim C10: scrap without a mailbox\<close>

text \<open>
  C10. When the mailbox attribute is \<^verbatim>\<open>None\<close>, every call of \<^verbatim>\<open>scrap\<close> returns
  \<^verbatim>\<open>None\<close> without raising and leaves the state as it is, whatever the arguments:
  the check of the search criteria is not reached.
\<close>

theorem C10_unauthenticated_scrap_returns_None:
  assumes "mailbox (this st) = None"
  shows "scrap E scrapsub sender keyword seen time_diff specific_date st = (Inr None, st)"
  using assms by (simp add: scrap_def scrap_body_def retry_value)

text \<open>C10 with all three criteria \<^verbatim>\<open>None\<close>.\<close>

theorem C10_unauthenticated_scrap_witness:
  "mailbox (this st_fresh) = None
   \<and> scrap env_up None None None None None None st_fresh = (Inr None, st_fresh)"
proof -
  have "mailbox (this st_fresh) = None" by (simp add: st_fresh_def)
  then show ?thesis
    using C10_unauthenticated_scrap_returns_None [of st_fresh env_up None None None None None None]
    by simp
qed

subsection \<open>What the heap and the object keep\<close>

lemma socks_create_connection_frame:
  "socks_create_connection E a st = (r, st') \<Longrightarrow> heap st' = heap st \<and> this st' = this st"
  by (auto simp: socks_create_connection_eq)

lemma wrap_socket_frame:
  "wrap_socket E sock h st = (r, st') \<Longrightarrow> heap st' = heap st \<and> this st' = this st"
  by (auto simp: wrap_socket_def Let_def split: option.splits)

lemma SocksIMAP4_create_socket_frame:
  "SocksIMAP4_create_socket E self tmo st = (r, st') \<Longrightarrow> heap st' = heap st \<and> this st' = this st"
  unfolding SocksIMAP4_create_socket_def
  by (erule retry_frame [rotated]) (erule socks_create_connection_frame)

lemma SocksIMAP4SSL_create_socket_frame:
  "SocksIMAP4SSL_create_socket E self tmo st = (r, st')
     \<Longrightarrow> heap st' = heap st \<and> this st' = this st"
  unfolding SocksIMAP4SSL_create_socket_def
proof (erule retry_frame [rotated])
  fix st r st'
  assume "(case SocksIMAP4_create_socket E self tmo st of
            (Inl e, st1) \<Rightarrow> (Inl e, st1)
          | (Inr sock, st1) \<Rightarrow>
              wrap_socket E sock (if e_has_sni E then Some (host self) else None) st1)
          = (r, st')"
  then show "heap st' = heap st \<and> this st' = this st"
    by (auto split: prod.splits sum.splits
        dest!: SocksIMAP4_create_socket_frame wrap_socket_frame)
qed

lemma IMAP4_open_frame:
  "IMAP4_open E self h p tmo st = (r, st') \<Longrightarrow> heap st' = heap st \<and> this st' = this st"
  by (auto simp: IMAP4_open_def Let_def split: prod.splits sum.splits
      dest!: SocksIMAP4SSL_create_socket_frame)

lemma SocksIMAP4SSL_open_frame:
  "SocksIMAP4SSL_open E self h p tmo st = (r, st') \<Longrightarrow> heap st' = heap st \<and> this st' = this st"
  unfolding SocksIMAP4SSL_open_def
  by (erule retry_frame [rotated]) (erule IMAP4_open_frame)

lemma IMAP4_init_frame:
  "IMAP4_init E self h p tmo st = (r, st') \<Longrightarrow> heap st' = heap st \<and> this st' = this st"
  by (auto simp: IMAP4_init_def Let_def split: prod.splits sum.splits option.splits
      dest!: SocksIMAP4SSL_open_frame)

lemma SocksIMAP4SSL_init_frame:
  "SocksIMAP4SSL_init E h p kf cf ctx paddr pport rd usr pwd ptype tmo st = (r, st')
     \<Longrightarrow> heap st' = heap st \<and> this st' = this st"
  by (auto simp: SocksIMAP4SSL_init_def split: if_splits option.splits dest!: IMAP4_init_frame)

lemma get_mailbox_client_frame:
  "MailBoxProxy_get_mailbox_client E self st = (r, st')
     \<Longrightarrow> heap st' = heap st \<and> this st' = this st"
  unfolding MailBoxProxy_get_mailbox_client_def
  by (erule retry_frame [rotated]) (erule SocksIMAP4SSL_init_frame)

lemma MailBoxProxy_init_frame:
  "MailBoxProxy_init E self st = (r, st') \<Longrightarrow> heap st' = heap st \<and> this st' = this st"
  by (auto simp: MailBoxProxy_init_def split: prod.splits sum.splits
      dest!: get_mailbox_client_frame)

lemma login_and_select_heap:
  "login_and_select E st = (r, st') \<Longrightarrow> heap st' = heap st"
  by (auto simp: login_and_select_def Let_def split: option.splits sum.splits bool.splits)

lemma MailBox_init_heap: "MailBox_init E h st = (r, st') \<Longrightarrow> heap st' = heap st"
  by (auto simp: MailBox_init_def Let_def split: option.splits)

text \<open>The one write to the heap: the translated proxy type, at the address of the
  configuration.\<close>

lemma connect_try_heap:
  assumes "connect_try E domain st = (r, st')" and "proxy (this st) = Some a"
  shows "heap st' =
     (case map_of providers domain of
        None \<Rightarrow> heap st
      | Some provider \<Rightarrow>
          (case translate_proxy_type (proxy_type (heap st a)) of
             Inl e \<Rightarrow> heap st
           | Inr t \<Rightarrow> (heap st)(a := (heap st a)\<lparr>proxy_type := t\<rparr>)))"
  using assms
  by (auto simp: connect_try_def Let_def split: option.splits sum.splits prod.splits
      dest!: MailBoxProxy_init_frame login_and_select_heap)

lemma connect_and_login_eq_body: "connect_and_login E st = connect_and_login_body E st"
  unfolding connect_and_login_def
  by (rule retry_no_retry)
    (auto simp: connect_and_login_body_def Let_def split: if_splits prod.splits sum.splits)

lemma connect_and_login_heap:
  assumes "connect_and_login E st = (r, st')" and "proxy (this st) = Some a"
  shows "heap st' =
     (if 1 < length (str_split CHR ''@'' (u (this st))) then
        (case map_of providers (str_split CHR ''@'' (u (this st)) ! 1) of
           None \<Rightarrow> heap st
         | Some provider \<Rightarrow>
             (case translate_proxy_type (proxy_type (heap st a)) of
                Inl e \<Rightarrow> heap st
              | Inr t \<Rightarrow> (heap st)(a := (heap st a)\<lparr>proxy_type := t\<rparr>)))
      else heap st)"
proof (cases "1 < length (str_split CHR ''@'' (u (this st)))")
  case False
  with assms show ?thesis
    by (simp add: connect_and_login_eq_body connect_and_login_body_def)
next
  case True
  obtain r1 st1 where t: "connect_try E (str_split CHR ''@'' (u (this st)) ! 1) st = (r1, st1)"
    by (cases "connect_try E (str_split CHR ''@'' (u (this st)) ! 1) st")
  from assms(1) True t have "heap st' = heap st1"
    by (auto simp: connect_and_login_eq_body connect_and_login_body_def Let_def
        split: sum.splits if_splits)
  with connect_try_heap [OF t assms(2)] True show ?thesis by simp
qed

subsection \<open>The scan of the folders\<close>

lemma fetch_loop_frame:
  "fetch_loop E f td sd kw ms soups st = (r, soups', st')
     \<Longrightarrow> heap st' = heap st \<and> this st' = this st"
  by (induction ms arbitrary: soups st)
    (auto simp: Let_def split: option.splits sum.splits)

lemma scan_folder_frame:
  "scan_folder E crit td sd kw f soups st = (r, soups', st')
     \<Longrightarrow> heap st' = heap st \<and> this st' = this st"
  by (auto simp: scan_folder_def Let_def split: option.splits sum.splits
      dest!: fetch_loop_frame)

lemma scan_folders_frame:
  "scan_folders E crit td sd kw fs soups st = (soups', st')
     \<Longrightarrow> heap st' = heap st \<and> this st' = this st"
proof (induction fs arbitrary: soups st)
  case Nil
  then show ?case by simp
next
  case (Cons f fs)
  obtain r soups1 st1 where 1: "scan_folder E crit td sd kw f soups st = (r, soups1, st1)"
    by (cases "scan_folder E crit td sd kw f soups st")
  with Cons.prems have "scan_folders E crit td sd kw fs soups1 st1 = (soups', st')" by simp
  from Cons.IH [OF this] scan_folder_frame [OF 1] show ?case by simp
qed

lemma scrap_body_frame:
  "scrap_body E scrapsub sender keyword seen td sd st = (r, st')
     \<Longrightarrow> heap st' = heap st \<and> this st' = this st"
  by (auto simp: scrap_body_def split: if_splits prod.splits dest!: scan_folders_frame)

lemma scrap_frame:
  "scrap E scrapsub sender keyword seen td sd st = (r, st')
     \<Longrightarrow> heap st' = heap st \<and> this st' = this st"
  unfolding scrap_def by (erule retry_frame [rotated]) (erule scrap_body_frame)


lemma ProxyConfig_new_proxy_type:
  "ProxyConfig_new ty addr prt usr pwd tmo = Inr cfg \<Longrightarrow> proxy_type cfg = ty"
  by (auto simp: ProxyConfig_new_def split: pyval.splits if_splits arg.splits option.splits)

subsection \<open>Claim C2: the proxy type of a configuration is never changed\<close>

text \<open>
  C2 as stated fails. The configuration \<open>cfg_socks5\<close> passes validation with the
  proxy type \<^verbatim>\<open>'SOCKS5'\<close>; after the \<^verbatim>\<open>MailKit\<close> is built, the caller's object holds
  the number \<^verbatim>\<open>socks.SOCKS5\<close> in that field.
\<close>

theorem C2_proxy_type_counterexample:
  "ProxyConfig_new (PStr ''SOCKS5'') ''10.0.0.1'' 1080 None None (Given (Some 30))
     = Inr (heap st_fresh 0)
   \<and> proxy_type (heap st_fresh 0) = PStr ''SOCKS5''
   \<and> proxy_type
       (heap (snd (MailKit_init env_up ''user@gmail.com'' ''secret'' (Some 0) st_fresh)) 0)
     = PInt socks_SOCKS5"
  by (simp add: ProxyConfig_new_def login_defs connection_defs example_defs emit_def)

text \<open>
  C2, amended. For a configuration that passed validation with the proxy type \<open>t\<close>,
  \<^verbatim>\<open>connect_and_login\<close> overwrites the caller's field with \<^verbatim>\<open>socks.HTTP\<close> or
  \<^verbatim>\<open>socks.SOCKS5\<close> when the address has a domain of the provider table and \<open>t\<close> in
  upper case is \<^verbatim>\<open>'HTTP'\<close> or \<^verbatim>\<open>'SOCKS5'\<close>; in every other case the field keeps the
  string \<open>t\<close>. This holds on every network, whether the connection succeeds or not.
  \<^verbatim>\<open>scrap\<close> changes no configuration.
\<close>

theorem C2_proxy_type_is_translated_in_place:
  assumes "ProxyConfig_new (PStr t) addr prt usr pwd tmo = Inr cfg"
    and "heap st a = cfg" and "proxy (this st) = Some a"
  shows "proxy_type (heap (snd (connect_and_login E st)) a) =
       (if 1 < length (str_split CHR ''@'' (u (this st)))
           \<and> map_of providers (str_split CHR ''@'' (u (this st)) ! 1) \<noteq> None
        then (if upper t = ''HTTP'' then PInt socks_HTTP
              else if upper t = ''SOCKS5'' then PInt socks_SOCKS5
              else PStr t)
        else PStr t)
     \<and> heap (snd (scrap E scrapsub sender keyword seen td sd st)) = heap st"
proof -
  have ty: "proxy_type (heap st a) = PStr t"
    using ProxyConfig_new_proxy_type [OF assms(1)] assms(2) by simp
  obtain r st' where c: "connect_and_login E st = (r, st')"
    by (cases "connect_and_login E st")
  have "proxy_type (heap st' a) =
       (if 1 < length (str_split CHR ''@'' (u (this st)))
           \<and> map_of providers (str_split CHR ''@'' (u (this st)) ! 1) \<noteq> None
        then (if upper t = ''HTTP'' then PInt socks_HTTP
              else if upper t = ''SOCKS5'' then PInt socks_SOCKS5
              else PStr t)
        else PStr t)"
    using connect_and_login_heap [OF c assms(3)] ty
    by (auto simp: translate_proxy_type_def split: option.splits)
  moreover have "heap (snd (scrap E scrapsub sender keyword seen td sd st)) = heap st"
    using scrap_frame [of E scrapsub sender keyword seen td sd st]
    by (cases "scrap E scrapsub sender keyword seen td sd st") simp
  ultimately show ?thesis using c by simp
qed

text \<open>
  The amended C2 for the type \<^verbatim>\<open>'socks5'\<close> in lower case and the default timeout, on
  the network that refuses every connection.
\<close>

theorem C2_proxy_type_witness:
  "ProxyConfig_new (PStr ''socks5'') ''10.0.0.1'' 1080 None None Omitted
     = Inr ((heap st_fresh 0)\<lparr>proxy_type := PStr ''socks5'', timeout := Some 10\<rparr>)
   \<and> proxy_type
       (heap (snd (connect_and_login env_down
          (st_fresh\<lparr>heap := (\<lambda>a. (heap st_fresh 0)\<lparr>proxy_type := PStr ''socks5'',
                                                        timeout := Some 10\<rparr>),
                     this := \<lparr>u = ''user@gmail.com'', pw = ''secret'', mailbox = None,
                              login_status = False, proxy = Some 0\<rparr>\<rparr>))) 0)
     = PInt socks_SOCKS5"
proof -
  let ?cfg = "(heap st_fresh 0)\<lparr>proxy_type := PStr ''socks5'', timeout := Some 10\<rparr>"
  let ?st = "st_fresh\<lparr>heap := (\<lambda>a. ?cfg),
                     this := \<lparr>u = ''user@gmail.com'', pw = ''secret'', mailbox = None,
                              login_status = False, proxy = Some 0\<rparr>\<rparr>"
  have 1: "ProxyConfig_new (PStr ''socks5'') ''10.0.0.1'' 1080 None None Omitted = Inr ?cfg"
    by (simp add: ProxyConfig_new_def st_fresh_def cfg_socks5_def)
  have 2: "heap ?st 0 = ?cfg" "proxy (this ?st) = Some 0" by simp_all
  show ?thesis
    using C2_proxy_type_is_translated_in_place [OF 1 2, of env_down] 1
    by (simp add: providers_def upper_def upper_char_def)
qed

subsection \<open>Substrings\<close>

lemma starts_with_iff: "starts_with k s \<longleftrightarrow> (\<exists>q. s = k @ q)"
  by (induction k s rule: starts_with.induct) auto

lemma str_contains_iff: "str_contains k s \<longleftrightarrow> (\<exists>p q. s = p @ k @ q)"
proof (induction s)
  case Nil
  then show ?case by auto
next
  case (Cons c cs)
  show ?case
  proof
    assume "str_contains k (c # cs)"
    then consider "starts_with k (c # cs)" | "str_contains k cs" by auto
    then show "\<exists>p q. c # cs = p @ k @ q"
    proof cases
      case 1
      then obtain q where "c # cs = k @ q" by (auto simp: starts_with_iff)
      then have "c # cs = [] @ k @ q" by simp
      then show ?thesis by blast
    next
      case 2
      then obtain p q where "cs = p @ k @ q" using Cons.IH by blast
      then have "c # cs = (c # p) @ k @ q" by simp
      then show ?thesis by blast
    qed
  next
    assume "\<exists>p q. c # cs = p @ k @ q"
    then obtain p q where pq: "c # cs = p @ k @ q" by blast
    show "str_contains k (c # cs)"
    proof (cases p)
      case Nil
      with pq have "starts_with k (c # cs)" by (auto simp: starts_with_iff)
      then show ?thesis by simp
    next
      case (Cons a p')
      with pq have "cs = p' @ k @ q" by simp
      then have "str_contains k cs" using Cons.IH by blast
      then show ?thesis by simp
    qed
  qed
qed

subsection \<open>The loop over the messages of a folder\<close>

lemma kept_Nil [simp]: "kept E f td sd kw [] = []"
  by (simp add: kept_def List.map_filter_def)

lemma kept_Cons:
  "kept E f td sd kw (m # ms) =
     (case filter_msg E f td sd kw m of
        Inr (Some s) \<Rightarrow> s # kept E f td sd kw ms
      | _ \<Rightarrow> kept E f td sd kw ms)"
  by (simp add: kept_def List.map_filter_def split: sum.splits option.splits)

lemma filter_msg_raises: "filter_msg E f td sd kw m = Inl e \<Longrightarrow> too_old E f td m = Inl e"
  by (auto simp: filter_msg_def split: sum.splits bool.splits if_splits)






lemma scrap_with_criteria:
  assumes "mailbox (this st) \<noteq> None" and "truthy scrapsub \<or> truthy sender \<or> truthy keyword"
  shows "scrap E scrapsub sender keyword seen td sd st =
     (case scan_folders E (search_criteria seen scrapsub sender) td sd keyword folders [] st of
        (soups, st1) \<Rightarrow> (Inr (if soups = [] then None else Some soups), st1))"
proof -
  obtain soups st1 where
    "scan_folders E (search_criteria seen scrapsub sender) td sd keyword folders [] st
       = (soups, st1)"
    by (cases "scan_folders E (search_criteria seen scrapsub sender) td sd keyword folders [] st")
  with assms show ?thesis
    by (simp add: scrap_def scrap_body_def retry_value)
qed

subsection \<open>Every connection attempt of connect_and_login, on every input\<close>

lemma adds_only_refl: "adds_only Q st st"
  by (simp add: adds_only_def)

lemma adds_only_emit: "Q ev \<Longrightarrow> adds_only Q st (emit ev st)"
  by (simp add: adds_only_def)

lemma adds_only_trans: "adds_only Q st st1 \<Longrightarrow> adds_only Q st1 st2 \<Longrightarrow> adds_only Q st st2"
  by (auto simp: adds_only_def)

lemma adds_only_then_emit: "adds_only Q st st1 \<Longrightarrow> Q ev \<Longrightarrow> adds_only Q st (emit ev st1)"
  by (auto simp: adds_only_def)

lemma adds_only_fields:
  "trace st1 = trace st \<Longrightarrow> adds_only Q st1 st2 \<Longrightarrow> adds_only Q st st2"
  by (simp add: adds_only_def)

lemma retry_from_adds_only:
  assumes step: "\<And>st r st'. f st = (r, st') \<Longrightarrow> adds_only Q st st'"
    and sleep: "Q (Sleep d)"
  shows "retry_from n d k f st = (r, st') \<Longrightarrow> adds_only Q st st'"
proof (induction "n - k" arbitrary: k st)
  case 0
  obtain r1 st1 where f1: "f st = (r1, st1)" by (cases "f st")
  from step [OF f1] "0.prems" "0.hyps" f1 show ?case
    by (cases r1) (auto simp: retry_from.simps [of n d k] split: if_splits)
next
  case (Suc m)
  obtain r1 st1 where f1: "f st = (r1, st1)" by (cases "f st")
  note a1 = step [OF f1]
  show ?case
  proof (cases r1)
    case (Inr v)
    with f1 Suc.prems a1 show ?thesis by (simp add: retry_from.simps [of n d k])
  next
    case (Inl e)
    show ?thesis
    proof (cases "is_Exception e")
      case True
      have "\<not> n \<le> k" using Suc.hyps(2) by arith
      with True f1 Inl Suc.prems
      have "retry_from n d (Suc k) f (emit (Sleep d) st1) = (r, st')"
        by (simp add: retry_from.simps [of n d k])
      from Suc.hyps(1) [OF _ this] Suc.hyps(2)
      have "adds_only Q (emit (Sleep d) st1) st'" by simp
      with a1 sleep show ?thesis
        by (blast intro: adds_only_trans adds_only_then_emit)
    next
      case False
      with f1 Inl Suc.prems a1 show ?thesis
        by (simp add: retry_from.simps [of n d k])
    qed
  qed
qed

lemma retry_adds_only:
  assumes "\<And>st r st'. f st = (r, st') \<Longrightarrow> adds_only Q st st'" and "Q (Sleep 3)"
  shows "retry f st = (r, st') \<Longrightarrow> adds_only Q st st'"
  unfolding retry_def
  by (erule retry_from_adds_only [rotated 2]) (erule assms(1), rule assms(2))

lemma SocksIMAP4_create_socket_http:
  assumes "proxy_type' self = socks_HTTP"
  shows "SocksIMAP4_create_socket E self tmo st = (r, st') \<Longrightarrow> adds_only http_attempt st st'"
  unfolding SocksIMAP4_create_socket_def
proof (erule retry_adds_only [rotated 2])
  fix st r st'
  assume "socks_create_connection E
           \<lparr>ca_host = host self, ca_port = port self, ca_proxy_type = proxy_type' self,
              ca_proxy_addr = proxy_addr' self, ca_proxy_port = proxy_port' self,
              ca_proxy_rdns = rdns self, ca_proxy_username = username self,
              ca_proxy_password = password self, ca_timeout = 10\<rparr> st = (r, st')"
  then show "adds_only http_attempt st st'"
    using assms by (auto simp: socks_create_connection_eq intro!: adds_only_emit)
qed simp

lemma wrap_socket_http:
  "wrap_socket E sock h st = (r, st') \<Longrightarrow> adds_only http_attempt st st'"
  by (auto simp: wrap_socket_def Let_def split: option.splits intro!: adds_only_emit)

lemma SocksIMAP4SSL_create_socket_http:
  assumes "proxy_type' self = socks_HTTP"
  shows "SocksIMAP4SSL_create_socket E self tmo st = (r, st')
     \<Longrightarrow> adds_only http_attempt st st'"
  unfolding SocksIMAP4SSL_create_socket_def
proof (erule retry_adds_only [rotated 2])
  fix st r st'
  assume "(case SocksIMAP4_create_socket E self tmo st of
            (Inl e, st1) \<Rightarrow> (Inl e, st1)
          | (Inr sock, st1) \<Rightarrow>
              wrap_socket E sock (if e_has_sni E then Some (host self) else None) st1)
          = (r, st')"
  then show "adds_only http_attempt st st'"
    by (auto split: prod.splits sum.splits
        dest!: SocksIMAP4_create_socket_http [OF assms] wrap_socket_http
        intro: adds_only_trans)
qed simp

lemma IMAP4_open_http:
  assumes "proxy_type' self = socks_HTTP"
  shows "IMAP4_open E self h p tmo st = (r, st') \<Longrightarrow> adds_only http_attempt st st'"
  using SocksIMAP4SSL_create_socket_http [of "self\<lparr>host := h, port := p\<rparr>" E tmo st] assms
  by (auto simp: IMAP4_open_def Let_def split: prod.splits sum.splits)

lemma SocksIMAP4SSL_open_http:
  assumes "proxy_type' self = socks_HTTP"
  shows "SocksIMAP4SSL_open E self h p tmo st = (r, st') \<Longrightarrow> adds_only http_attempt st st'"
  unfolding SocksIMAP4SSL_open_def
  by (erule retry_adds_only [rotated 2]) (erule IMAP4_open_http [OF assms], simp)

lemma IMAP4_init_http:
  assumes "proxy_type' self = socks_HTTP"
  shows "IMAP4_init E self h p tmo st = (r, st') \<Longrightarrow> adds_only http_attempt st st'"
  by (auto simp: IMAP4_init_def Let_def split: prod.splits sum.splits option.splits
      dest!: SocksIMAP4SSL_open_http [OF assms]
      intro: adds_only_then_emit)

lemma SocksIMAP4SSL_init_http:
  "SocksIMAP4SSL_init E h p kf cf ctx paddr pport rd usr pwd ''HTTP'' tmo st = (r, st')
     \<Longrightarrow> adds_only http_attempt st st'"
  by (auto simp: SocksIMAP4SSL_init_def PROXY_TYPES_def lower_def lower_char_def
      adds_only_refl split: if_splits dest!: IMAP4_init_http [rotated])

lemma MailBoxProxy_init_http:
  assumes "p_proxy_type self = ''HTTP''"
  shows "MailBoxProxy_init E self st = (r, st') \<Longrightarrow> adds_only http_attempt st st'"
proof -
  have "MailBoxProxy_get_mailbox_client E self st = (r, st')
     \<Longrightarrow> adds_only http_attempt st st'" for r st st'
    unfolding MailBoxProxy_get_mailbox_client_def assms
    by (erule retry_adds_only [rotated 2]) (erule SocksIMAP4SSL_init_http, simp)
  then show "MailBoxProxy_init E self st = (r, st') \<Longrightarrow> adds_only http_attempt st st'"
    by (auto simp: MailBoxProxy_init_def split: prod.splits sum.splits)
qed

lemma login_and_select_http:
  "login_and_select E st = (r, st') \<Longrightarrow> adds_only http_attempt st st'"
  by (auto simp: login_and_select_def Let_def adds_only_def
      split: option.splits sum.splits bool.splits)

lemma MailBox_init_http: "MailBox_init E h st = (r, st') \<Longrightarrow> adds_only http_attempt st st'"
  by (auto simp: MailBox_init_def Let_def adds_only_def split: option.splits)

text \<open>
  Whatever the configuration and whatever the network does, every connection
  attempt that \<^verbatim>\<open>connect_and_login\<close> makes goes through the proxy as HTTP, with a
  timeout of 10 seconds.
\<close>

lemma connect_try_http:
  assumes "connect_try E domain st = (r, st')"
  shows "adds_only http_attempt st st'"
proof (cases "map_of providers domain")
  case None
  with assms show ?thesis by (auto simp: connect_try_def adds_only_def)
next
  case (Some provider)
  show ?thesis
  proof (cases "proxy (this st)")
    case None
    obtain r1 st1 where 1: "MailBox_init E provider st = (r1, st1)"
      by (cases "MailBox_init E provider st")
    from MailBox_init_http [OF 1] have a: "adds_only http_attempt st st1" .
    show ?thesis
    proof (cases r1)
      case (Inl e)
      with assms Some None 1 a show ?thesis by (simp add: connect_try_def)
    next
      case (Inr mb)
      with assms Some None 1
      have "login_and_select E (st1\<lparr>this := (this st1)\<lparr>mailbox := Some mb\<rparr>\<rparr>) = (r, st')"
        by (simp add: connect_try_def)
      from login_and_select_http [OF this]
      have "adds_only http_attempt st1 st'" by (rule adds_only_fields [rotated]) simp
      with a show ?thesis by (rule adds_only_trans)
    qed
  next
    case (Some a)
    show ?thesis
    proof (cases "translate_proxy_type (proxy_type (heap st a))")
      case (Inl e)
      with assms \<open>map_of providers domain = Some provider\<close> Some show ?thesis
        by (simp add: connect_try_def adds_only_refl)
    next
      case (Inr t)
      let ?st1 = "st\<lparr>heap := (heap st)(a := (heap st a)\<lparr>proxy_type := t\<rparr>)\<rparr>"
      let ?pc = "heap ?st1 a"
      let ?mbp = "\<lparr>p_host = provider, p_port = 993, p_keyfile = None,
                                p_certfile = None, p_ssl_context = None,
                                p_timeout = timeout ?pc, p_proxy_type = ''HTTP'',
                                p_proxy_addr = proxy_addr ?pc, p_proxy_port = proxy_port ?pc,
                                p_proxy_rdns = True,
                                p_proxy_username = proxy_username ?pc,
                                p_proxy_password = proxy_password ?pc\<rparr>"
      obtain r1 st2 where 1: "MailBoxProxy_init E ?mbp ?st1 = (r1, st2)"
        by (cases "MailBoxProxy_init E ?mbp ?st1")
      have "adds_only http_attempt ?st1 st2"
        by (rule MailBoxProxy_init_http [OF _ 1]) simp
      then have a: "adds_only http_attempt st st2"
        by (rule adds_only_fields [rotated]) simp
      show ?thesis
      proof (cases r1)
        case (Inl e)
        with assms \<open>map_of providers domain = Some provider\<close> Some Inr 1 a show ?thesis
          by (simp add: connect_try_def Let_def)
      next
        case mb: (Inr mb)
        with assms \<open>map_of providers domain = Some provider\<close> Some Inr 1
        have "login_and_select E (st2\<lparr>this := (this st2)\<lparr>mailbox := Some mb\<rparr>\<rparr>) = (r, st')"
          by (simp add: connect_try_def Let_def)
        from login_and_select_http [OF this]
        have "adds_only http_attempt st2 st'" by (rule adds_only_fields [rotated]) simp
        with a show ?thesis by (rule adds_only_trans)
      qed
    qed
  qed
qed

lemma connect_and_login_http:
  assumes "connect_and_login E st = (r, st')"
  shows "adds_only http_attempt st st'"
proof (cases "1 < length (str_split CHR ''@'' (u (this st)))")
  case False
  with assms show ?thesis
    by (simp add: connect_and_login_eq_body connect_and_login_body_def adds_only_refl)
next
  case True
  obtain r1 st1 where t: "connect_try E (str_split CHR ''@'' (u (this st)) ! 1) st = (r1, st1)"
    by (cases "connect_try E (str_split CHR ''@'' (u (this st)) ! 1) st")
  from assms True t have "trace st' = trace st1"
    by (auto simp: connect_and_login_eq_body connect_and_login_body_def Let_def
        split: sum.splits if_splits)
  with connect_try_http [OF t] show ?thesis by (simp add: adds_only_def)
qed

subsection \<open>The result of a scan, on every mailbox\<close>

lemma filter_msg_returns:
  "filter_msg E f td sd kw m = Inr r \<Longrightarrow> \<exists>b. too_old E f td m = Inr b"
  by (auto simp: filter_msg_def split: sum.splits)

text \<open>
  The loop appends the bodies kept among the messages that come before the first
  error, whatever the error is.
\<close>

lemma fetch_loop_soups:
  "fst (snd (fetch_loop E f td sd kw ms soups st)) =
     soups @ kept E f td sd kw (takeWhile (msg_ok E f td) ms)"
proof (induction ms arbitrary: soups st)
  case Nil
  then show ?case by simp
next
  case (Cons m ms)
  show ?case
  proof (cases "e_fetch E f (msg_uid m)")
    case (Some e)
    then show ?thesis by (simp add: msg_ok_def)
  next
    case None
    show ?thesis
    proof (cases "filter_msg E f td sd kw m")
      case (Inl e)
      then have "too_old E f td m = Inl e" by (rule filter_msg_raises)
      with None Inl show ?thesis by (simp add: msg_ok_def)
    next
      case (Inr r)
      then obtain b where "too_old E f td m = Inr b" by (blast dest: filter_msg_returns)
      with None have ok: "msg_ok E f td m" by (simp add: msg_ok_def)
      show ?thesis
        using None Inr ok Cons.IH
        by (cases r) (simp_all add: kept_Cons)
    qed
  qed
qed

lemma scan_folder_soups:
  "fst (snd (scan_folder E crit td sd kw f soups st)) = soups @ folder_yield E crit td sd kw f"
  by (auto simp: scan_folder_def folder_yield_def handled_def folder_opens_def found_def
      fetch_loop_soups Let_def split: sum.splits option.splits)

lemma scan_folders_soups:
  "fst (scan_folders E crit td sd kw fs soups st) =
     soups @ concat (map (folder_yield E crit td sd kw) fs)"
proof (induction fs arbitrary: soups st)
  case Nil
  then show ?case by simp
next
  case (Cons f fs)
  obtain r soups1 st1 where 1: "scan_folder E crit td sd kw f soups st = (r, soups1, st1)"
    by (cases "scan_folder E crit td sd kw f soups st")
  with scan_folder_soups [of E crit td sd kw f soups st]
  have "soups1 = soups @ folder_yield E crit td sd kw f" by simp
  with 1 Cons.IH [of soups1 st1] show ?case by simp
qed

lemma scrap_result:
  assumes "mailbox (this st) \<noteq> None" and "truthy scrapsub \<or> truthy sender \<or> truthy keyword"
  shows "fst (scrap E scrapsub sender keyword seen td sd st) =
     Inr (result_of (concat (map (folder_yield E (search_criteria seen scrapsub sender) td sd
            keyword) folders)))"
  using scrap_with_criteria [OF assms, of E seen td sd]
    scan_folders_soups [of E "search_criteria seen scrapsub sender" td sd keyword folders "[]" st]
  by (simp add: result_of_def split: prod.splits)





text \<open>The bodies kept among some messages, for a keyword \<open>k\<close>, written out.\<close>

lemma str_contains_Nil [simp]: "str_contains [] s"
  by (cases s) simp_all

lemma filter_msg_keyword:
  "filter_msg E f td sd (Some k) m =
     (case too_old E f td m of
        Inl e \<Rightarrow> Inl e
      | Inr b \<Rightarrow>
          if \<not> b \<and> (case sd of None \<Rightarrow> True | Some d \<Rightarrow> date_of (msg_date m) = date_of d)
             \<and> str_contains k (body m)
          then Inr (Some (BeautifulSoup (body m))) else Inr None)"
  by (cases "k = []") (simp_all add: filter_msg_def split: sum.splits option.splits bool.splits)

lemma kept_keyword_body:
  "kept E f td sd (Some k) ms =
     map (\<lambda>m. BeautifulSoup (body m))
       (filter (\<lambda>m. too_old E f td m = Inr False
                  \<and> (case sd of None \<Rightarrow> True | Some d \<Rightarrow> date_of (msg_date m) = date_of d)
                  \<and> str_contains k (body m))
          ms)"
proof (induction ms)
  case Nil
  then show ?case by simp
next
  case (Cons m ms)
  show ?case
  proof (cases "too_old E f td m")
    case (Inl e)
    with Cons.IH show ?thesis by (simp add: kept_Cons filter_msg_keyword)
  next
    case (Inr b)
    with Cons.IH show ?thesis by (cases b) (simp_all add: kept_Cons filter_msg_keyword)
  qed
qed

lemma kept_keyword:
  "kept E f td sd (Some k) ms =
     map (\<lambda>m. BeautifulSoup (if msg_text m \<noteq> [] then msg_text m else msg_html m))
       (filter (\<lambda>m. too_old E f td m = Inr False
                  \<and> (case sd of None \<Rightarrow> True | Some d \<Rightarrow> date_of (msg_date m) = date_of d)
                  \<and> (\<exists>p q. (if msg_text m \<noteq> [] then msg_text m else msg_html m) = p @ k @ q))
          ms)"
  using kept_keyword_body [of E f td sd k ms] unfolding body_def str_contains_iff .

subsection \<open>Which messages a scan fetches\<close>




lemmas mailbox_defs =
  env_mail_def env_sent_breaks_def env_aware_def env_up_def msg_invoice_def msg_notice_def
  msg_receipt_def msg_aware_def

lemmas folder_defs =
  folders_def folder_succeeds_def folder_matches_def folder_yield_def handled_def
  folder_opens_def found_def kept_def List.map_filter_def msg_ok_def filter_msg_def
  too_old_def body_def result_of_def search_criteria_def




subsection \<open>Claim C7: a failing folder does not stop the scan\<close>



subsection \<open>Claim C8: the keyword filter\<close>

text \<open>
  C8. On an authenticated client, the list that \<^verbatim>\<open>scrap\<close> returns for a keyword
  \<open>k\<close> is, folder by folder and message by message, the parsed body
  \<^verbatim>\<open>msg.text or msg.html\<close> of every handled message that the time window and the
  date do not exclude and in whose \<^verbatim>\<open>msg.text or msg.html\<close> the keyword occurs.
  So such a message is excluded from the result exactly when the keyword is absent
  from its text-or-HTML body. This holds on every mailbox.
\<close>

theorem C8_keyword_decides_the_result:
  assumes "mailbox (this st) \<noteq> None"
    and "truthy scrapsub \<or> truthy sender \<or> k \<noteq> []"
  shows "fst (scrap E scrapsub sender (Some k) seen td sd st) =
     Inr (result_of (concat (map
       (\<lambda>f. map (\<lambda>m. BeautifulSoup (if msg_text m \<noteq> [] then msg_text m else msg_html m))
              (filter
                 (\<lambda>m. too_old E f td m = Inr False
                    \<and> (case sd of None \<Rightarrow> True | Some d \<Rightarrow> date_of (msg_date m) = date_of d)
                    \<and> (\<exists>p q. (if msg_text m \<noteq> [] then msg_text m else msg_html m)
                                = p @ k @ q))
                 (handled E (search_criteria seen scrapsub sender) td f)))
       folders)))"
proof -
  have "truthy scrapsub \<or> truthy sender \<or> truthy (Some k)" using assms(2) by simp
  moreover have "folder_yield E (search_criteria seen scrapsub sender) td sd (Some k) =
      (\<lambda>f. map (\<lambda>m. BeautifulSoup (if msg_text m \<noteq> [] then msg_text m else msg_html m))
              (filter
                 (\<lambda>m. too_old E f td m = Inr False
                    \<and> (case sd of None \<Rightarrow> True | Some d \<Rightarrow> date_of (msg_date m) = date_of d)
                    \<and> (\<exists>p q. (if msg_text m \<noteq> [] then msg_text m else msg_html m)
                                = p @ k @ q))
                 (handled E (search_criteria seen scrapsub sender) td f)))"
    by (rule ext) (simp only: folder_yield_def kept_keyword)
  ultimately show ?thesis
    using scrap_result [OF assms(1), of scrapsub sender "Some k" E seen td sd] by simp
qed

text \<open>
  C8 on the mailbox \<open>env_mail\<close>: the body \<^verbatim>\<open>invoice#4471\<close> is returned for the
  keyword \<^verbatim>\<open>invoice\<close> and not for \<^verbatim>\<open>refund\<close>; the keyword \<^verbatim>\<open>parcel\<close> is found
  in the HTML body of the message that has no text.
\<close>

theorem C8_keyword_witness:
  "fst (scrap env_mail (Some ''Invoice'') None (Some ''invoice'') None None None st_auth)
     = Inr (Some [BeautifulSoup ''invoice#4471''])
   \<and> fst (scrap env_mail (Some ''Invoice'') None (Some ''refund'') None None None st_auth)
       = Inr None
   \<and> fst (scrap env_mail (Some ''Invoice'') None (Some ''parcel'') None None None st_auth)
       = Inr (Some [BeautifulSoup ''<p>Your parcel has shipped</p>''])"
proof -
  have 1: "mailbox (this st_auth) \<noteq> None" by (simp add: st_auth_def st_fresh_def)
  have run: "fst (scrap env_mail (Some ''Invoice'') None (Some k) None None None st_auth) =
     Inr (result_of (concat (map
       (\<lambda>f. map (\<lambda>m. BeautifulSoup (if msg_text m \<noteq> [] then msg_text m else msg_html m))
              (filter
                 (\<lambda>m. too_old env_mail f None m = Inr False
                    \<and> (case None :: datetime option of None \<Rightarrow> True
                        | Some d \<Rightarrow> date_of (msg_date m) = date_of d)
                    \<and> str_contains k (if msg_text m \<noteq> [] then msg_text m else msg_html m))
                 (handled env_mail (search_criteria None (Some ''Invoice'') None) None f)))
       folders)))" for k
  proof -
    have t: "truthy (Some ''Invoice'') \<or> truthy None \<or> k \<noteq> []" by simp
    show ?thesis
      using C8_keyword_decides_the_result [OF 1 t, where E = env_mail and seen = None
          and td = None and sd = None]
      by (simp only: str_contains_iff)
  qed
  have "fst (scrap env_mail (Some ''Invoice'') None (Some ''invoice'') None None None st_auth)
     = Inr (Some [BeautifulSoup ''invoice#4471''])"
    by (subst run) (simp add: folder_defs mailbox_defs)
  moreover
  have "fst (scrap env_mail (Some ''Invoice'') None (Some ''refund'') None None None st_auth)
       = Inr None"
    by (subst run) (simp add: folder_defs mailbox_defs)
  moreover
  have "fst (scrap env_mail (Some ''Invoice'') None (Some ''parcel'') None None None st_auth)
       = Inr (Some [BeautifulSoup ''<p>Your parcel has shipped</p>''])"
    by (subst run) (simp add: folder_defs mailbox_defs)
  ultimately show ?thesis by blast
qed

subsection \<open>Claim C9: every matched message is fetched with mark-seen\<close>




end
